theory Spec2Isabelle
  imports Complex_Main "HOL-Library.AList" "HOL-Library.Multiset"
begin

section \<open>Python values carried by messages\<close>

text \<open>
  The coordinator (\<^verbatim>\<open>src/traffic_server.py\<close>) never checks the type of a field it reads
  from a decoded JSON object, so the fields are modelled as Python values. Booleans and
  floats are left out of the value type: Python identifies \<^verbatim>\<open>1\<close>, \<^verbatim>\<open>1.0\<close> and \<^verbatim>\<open>True\<close> as
  dictionary keys, which structural equality would not. A tuple never comes out of
  \<^verbatim>\<open>json.loads\<close>; it is here for the default position \<^verbatim>\<open>(0, 0)\<close>.
\<close>

datatype pyval =
    PNone
  | PInt int
  | PStr string
  | PList "pyval list"
  | PTuple "pyval list"
  | PDict "(string \<times> pyval) list"

text \<open>\<^verbatim>\<open>hash(v)\<close> succeeds: lists and dicts raise \<^verbatim>\<open>TypeError\<close>, a tuple hashes its items.\<close>

fun hashable :: "pyval \<Rightarrow> bool" where
  "hashable (PList xs) = False"
| "hashable (PDict kvs) = False"
| "hashable (PTuple xs) = list_all hashable xs"
| "hashable v = True"

text \<open>Python truth value, as tested by \<^verbatim>\<open>if client_id:\<close>.\<close>

fun truthy :: "pyval \<Rightarrow> bool" where
  "truthy PNone = False"
| "truthy (PInt n) = (n \<noteq> 0)"
| "truthy (PStr s) = (s \<noteq> [])"
| "truthy (PList xs) = (xs \<noteq> [])"
| "truthy (PTuple xs) = (xs \<noteq> [])"
| "truthy (PDict kvs) = (kvs \<noteq> [])"

text \<open>A decoded JSON object; \<^verbatim>\<open>message.get(key, default)\<close>.\<close>

type_synonym message = "(string \<times> pyval) list"

definition dict_get :: "message \<Rightarrow> string \<Rightarrow> pyval \<Rightarrow> pyval" where
  "dict_get m k d = (case map_of m k of None \<Rightarrow> d | Some v \<Rightarrow> v)"

datatype exn = TypeError | AttributeError

section \<open>The coordinator's state\<close>

text \<open>
  Timestamps (\<^verbatim>\<open>time.time()\<close>) are real numbers of seconds; every operation that reads the
  clock takes the reading as its argument \<open>now\<close>. A connection handle is a number, and
  an address is an opaque string.
\<close>

record client_info =
  ci_id :: pyval
  ci_intersection :: pyval
  ci_position :: pyval
  ci_state :: pyval
  ci_last_heartbeat :: real
  ci_socket :: nat
  ci_address :: string
  ci_state_changes :: nat

record system_state =
  emergency_mode :: bool
  sync_in_progress :: bool
  last_sync :: real
  total_clients :: nat

record stats =
  messages_processed :: nat
  sync_operations :: nat
  emergency_overrides :: nat
  deadlock_preventions :: nat

text \<open>Messages the coordinator builds and writes to a connection handle.\<close>

datatype server_msg =
    registration_confirmed real pyval
  | sync_request real string
  | emergency_override_msg string real "string option"

datatype lock_event = Acquired string | Released string

datatype lock_visit = AcquireVisit string | ReleaseVisit string

text \<open>
  The three dictionaries are association lists in insertion order, as a Python \<^verbatim>\<open>dict\<close>
  is: \<open>AList.update\<close> overwrites an existing key in place and appends a new one,
  \<open>AList.delete\<close> removes a key. \<open>clients_lock\<close> is the depth of the reentrant lock
  (the model runs the operations one after another, so its owner is not recorded).
  Five fields are not attributes of the class but record what it does to the outside:
  \<open>lock_trace\<close> lists the acquisitions and releases of the real lock, \<open>lock_visits\<close>
  lists the lock names in the order in which the iterations of \<^verbatim>\<open>acquire_locks_in_order\<close> and
  \<^verbatim>\<open>release_locks\<close> reach them (whether or not a name is a real lock), \<open>send_calls\<close> lists
  every call \<^verbatim>\<open>client_socket.send(data)\<close> with the handle and the message, \<open>closed\<close> is
  the set of handles on which \<^verbatim>\<open>close()\<close> was called, and \<open>timers\<close> holds the firing
  times of the started one-shot timers that will run \<^verbatim>\<open>complete_synchronization\<close>.
\<close>

record server =
  running :: bool
  clients :: "(pyval \<times> client_info) list"
  client_sockets :: "(pyval \<times> nat) list"
  client_locks :: "(pyval \<times> unit) list"
  system_state :: system_state
  stats :: stats
  active_locks :: "string set"
  clients_lock :: nat
  lock_trace :: "lock_event list"
  lock_visits :: "lock_visit list"
  send_calls :: "(nat \<times> server_msg) list"
  closed :: "nat set"
  timers :: "real list"

text \<open>\<^verbatim>\<open>TrafficServer.__init__\<close>, constructed at time \<open>now\<close>.\<close>

definition init_server :: "real \<Rightarrow> server" where
  "init_server now =
     \<lparr> running = False, clients = [], client_sockets = [], client_locks = [],
       system_state = \<lparr> emergency_mode = False, sync_in_progress = False,
                        last_sync = now, total_clients = 0 \<rparr>,
       stats = \<lparr> messages_processed = 0, sync_operations = 0,
                 emergency_overrides = 0, deadlock_preventions = 0 \<rparr>,
       active_locks = {}, clients_lock = 0, lock_trace = [], lock_visits = [],
       send_calls = [], closed = {}, timers = [] \<rparr>"

section \<open>Ordered lock acquisition\<close>

definition resource_order :: "string list" where
  "resource_order = [''system_lock'', ''clients_lock'', ''message_lock'']"

text \<open>\<^verbatim>\<open>list.index\<close> of an element that is in the list.\<close>

fun index_of :: "'a \<Rightarrow> 'a list \<Rightarrow> nat" where
  "index_of x [] = 0"
| "index_of x (y # ys) = (if x = y then 0 else Suc (index_of x ys))"

text \<open>The sort key \<^verbatim>\<open>resource_order.index(x) if x in resource_order else 999\<close>.\<close>

definition order_key :: "string \<Rightarrow> nat" where
  "order_key x = (if x \<in> set resource_order then index_of x resource_order else 999)"

text \<open>\<^verbatim>\<open>self.clients_lock.acquire()\<close> and \<^verbatim>\<open>release()\<close> of the reentrant lock; releasing
  a lock that is not held raises \<^verbatim>\<open>RuntimeError\<close>, reported as \<open>False\<close>.\<close>

definition rlock_acquire :: "server \<Rightarrow> server" where
  "rlock_acquire st =
     st\<lparr> clients_lock := Suc (clients_lock st),
         lock_trace := lock_trace st @ [Acquired ''clients_lock''] \<rparr>"

definition rlock_release :: "server \<Rightarrow> bool \<times> server" where
  "rlock_release st =
     (if clients_lock st = 0 then (False, st)
      else (True, st\<lparr> clients_lock := clients_lock st - 1,
                      lock_trace := lock_trace st @ [Released ''clients_lock''] \<rparr>))"

text \<open>The body of \<^verbatim>\<open>with self.clients_lock:\<close> around a state transformer.\<close>

definition with_clients_lock :: "(server \<Rightarrow> server) \<Rightarrow> server \<Rightarrow> server" where
  "with_clients_lock body st = snd (rlock_release (body (rlock_acquire st)))"

text \<open>A loop over lock names reaches a name.\<close>

definition visit :: "lock_visit \<Rightarrow> server \<Rightarrow> server" where
  "visit v st = st\<lparr> lock_visits := lock_visits st @ [v] \<rparr>"

text \<open>The \<^verbatim>\<open>for lock_name in sorted_locks\<close> loop of \<^verbatim>\<open>acquire_locks_in_order\<close>: only
  \<^verbatim>\<open>clients_lock\<close> is a real lock, the other two names are simulated (\<^verbatim>\<open>pass\<close>).\<close>

fun acquire_loop :: "string list \<Rightarrow> string list \<Rightarrow> server \<Rightarrow> string list \<times> server" where
  "acquire_loop [] acquired_locks st = (acquired_locks, st)"
| "acquire_loop (lock_name # rest) acquired_locks st =
     (if lock_name = ''system_lock''
        then acquire_loop rest acquired_locks (visit (AcquireVisit lock_name) st)
      else if lock_name = ''clients_lock''
        then acquire_loop rest (acquired_locks @ [''clients_lock''])
               (rlock_acquire (visit (AcquireVisit lock_name) st))
      else acquire_loop rest acquired_locks (visit (AcquireVisit lock_name) st))"

text \<open>\<^verbatim>\<open>sorted\<close> is stable, as \<open>sort_key\<close> is. Nothing in the \<^verbatim>\<open>try\<close> block can raise for a
  list of names, so the function always returns.\<close>

definition acquire_locks_in_order :: "string list \<Rightarrow> server \<Rightarrow> string list \<times> server" where
  "acquire_locks_in_order lock_names st =
     (let sorted_locks = sort_key order_key lock_names;
          (acquired_locks, st1) = acquire_loop sorted_locks [] st
      in (acquired_locks,
          st1\<lparr> active_locks := active_locks st1 \<union> set acquired_locks,
               stats := (stats st1)\<lparr> deadlock_preventions :=
                                        Suc (deadlock_preventions (stats st1)) \<rparr> \<rparr>))"

definition release_one :: "server \<Rightarrow> string \<Rightarrow> server" where
  "release_one st lock_name =
     (let st0 = visit (ReleaseVisit lock_name) st;
          st1 = (if lock_name = ''clients_lock'' then snd (rlock_release st0) else st0)
      in st1\<lparr> active_locks := active_locks st1 - {lock_name} \<rparr>)"

definition release_locks :: "string list \<Rightarrow> server \<Rightarrow> server" where
  "release_locks lock_names st = foldl release_one st (rev lock_names)"

section \<open>Sending\<close>

text \<open>\<^verbatim>\<open>send_to_client\<close>: \<open>False\<close> when the id has no handle or the write raises (the
  handle was closed); the exception is caught inside. Every caller passes a hashable id.\<close>

definition send_to_client :: "pyval \<Rightarrow> server_msg \<Rightarrow> server \<Rightarrow> bool \<times> server" where
  "send_to_client client_id msg st =
     (case map_of (client_sockets st) client_id of
        None \<Rightarrow> (False, st)
      | Some client_socket \<Rightarrow>
          (client_socket \<notin> closed st,
           st\<lparr> send_calls := send_calls st @ [(client_socket, msg)] \<rparr>))"

definition broadcast_message :: "server_msg \<Rightarrow> server \<Rightarrow> server" where
  "broadcast_message msg =
     with_clients_lock (\<lambda>st.
       foldl (\<lambda>s client_id. snd (send_to_client client_id msg s)) st
             (map fst (client_sockets st)))"

section \<open>Synchronization\<close>

definition should_sync_clients :: "real \<Rightarrow> server \<Rightarrow> bool" where
  "should_sync_clients now st =
     (if sync_in_progress (system_state st) then False
      else now - last_sync (system_state st) > 30)"

definition trigger_synchronization :: "real \<Rightarrow> server \<Rightarrow> server" where
  "trigger_synchronization now st =
     (if sync_in_progress (system_state st) then st
      else
        let st1 = st\<lparr> system_state := (system_state st)\<lparr> sync_in_progress := True,
                                                            last_sync := now \<rparr>,
                      stats := (stats st)\<lparr> sync_operations :=
                                              Suc (sync_operations (stats st)) \<rparr> \<rparr>;
            st2 = broadcast_message (sync_request now ''SIGET_CENTRAL'') st1
        in st2\<lparr> timers := timers st2 @ [now + 5] \<rparr>)"

definition complete_synchronization :: "server \<Rightarrow> server" where
  "complete_synchronization st =
     st\<lparr> system_state := (system_state st)\<lparr> sync_in_progress := False \<rparr> \<rparr>"

text \<open>A started timer fires: it leaves the pending timers and runs its action.\<close>

definition timer_fires :: "real \<Rightarrow> server \<Rightarrow> server" where
  "timer_fires t st =
     (if t \<in> set (timers st)
      then complete_synchronization (st\<lparr> timers := remove1 t (timers st) \<rparr>)
      else st)"



text \<open>One pass of the \<^verbatim>\<open>periodic_sync\<close> loop after its sleep.\<close>

definition periodic_sync :: "real \<Rightarrow> server \<Rightarrow> server" where
  "periodic_sync now st =
     (if should_sync_clients now st then trigger_synchronization now st else st)"

section \<open>Registry operations\<close>

definition register_client ::
  "real \<Rightarrow> pyval \<Rightarrow> message \<Rightarrow> nat \<Rightarrow> string \<Rightarrow> server \<Rightarrow> server \<times> exn option" where
  "register_client now client_id msg client_socket address st =
     (let info = \<lparr> ci_id = client_id,
                   ci_intersection = dict_get msg ''intersection'' (PStr ''Unknown''),
                   ci_position = dict_get msg ''position'' (PTuple [PInt 0, PInt 0]),
                   ci_state = dict_get msg ''state'' (PStr ''RED''),
                   ci_last_heartbeat = now,
                   ci_socket = client_socket,
                   ci_address = address,
                   ci_state_changes = 0 \<rparr>
      in if \<not> hashable client_id then (st, Some TypeError)
         else
           let st1 = st\<lparr> clients := AList.update client_id info (clients st),
                         client_sockets :=
                           AList.update client_id client_socket (client_sockets st),
                         client_locks := AList.update client_id () (client_locks st) \<rparr>;
               st2 = st1\<lparr> system_state :=
                             (system_state st1)\<lparr> total_clients := length (clients st1) \<rparr> \<rparr>
           in (snd (send_to_client client_id (registration_confirmed now client_id) st2),
               None))"

definition update_client_state ::
  "real \<Rightarrow> pyval \<Rightarrow> message \<Rightarrow> server \<Rightarrow> server \<times> exn option" where
  "update_client_state now client_id msg st =
     (if \<not> hashable client_id then (st, Some TypeError)
      else case map_of (clients st) client_id of
        None \<Rightarrow> (st, None)
      | Some info \<Rightarrow>
          let info1 = info\<lparr> ci_state := dict_get msg ''state'' (ci_state info),
                             ci_last_heartbeat := now,
                             ci_state_changes := Suc (ci_state_changes info) \<rparr>;
              st1 = st\<lparr> clients := AList.update client_id info1 (clients st) \<rparr>
          in (if should_sync_clients now st1 then trigger_synchronization now st1 else st1,
              None))"

definition update_client_heartbeat :: "real \<Rightarrow> pyval \<Rightarrow> server \<Rightarrow> server \<times> exn option" where
  "update_client_heartbeat now client_id st =
     (if \<not> hashable client_id then (st, Some TypeError)
      else case map_of (clients st) client_id of
        None \<Rightarrow> (st, None)
      | Some info \<Rightarrow>
          (st\<lparr> clients :=
                 AList.update client_id (info\<lparr> ci_last_heartbeat := now \<rparr>) (clients st) \<rparr>,
           None))"

text \<open>\<^verbatim>\<open>remove_client\<close>: the membership test raises for an unhashable id; the \<^verbatim>\<open>with\<close>
  block releases the lock on that path too.\<close>

definition remove_client :: "pyval \<Rightarrow> server \<Rightarrow> server \<times> exn option" where
  "remove_client client_id st =
     (if \<not> hashable client_id then (with_clients_lock (\<lambda>s. s) st, Some TypeError)
      else
        (with_clients_lock (\<lambda>s.
           if map_of (clients s) client_id \<noteq> None then
             let s1 = s\<lparr> clients := AList.delete client_id (clients s) \<rparr>;
                 s2 = (if map_of (client_sockets s1) client_id \<noteq> None
                       then s1\<lparr> client_sockets :=
                                  AList.delete client_id (client_sockets s1) \<rparr>
                       else s1);
                 s3 = (if map_of (client_locks s2) client_id \<noteq> None
                       then s2\<lparr> client_locks := AList.delete client_id (client_locks s2) \<rparr>
                       else s2)
             in s3\<lparr> system_state :=
                      (system_state s3)\<lparr> total_clients := length (clients s3) \<rparr> \<rparr>
           else s) st,
         None))"

section \<open>Message dispatcher\<close>

definition process_client_message ::
  "real \<Rightarrow> pyval \<Rightarrow> message \<Rightarrow> nat \<Rightarrow> string \<Rightarrow> server \<Rightarrow> server \<times> exn option" where
  "process_client_message now client_id msg client_socket address st =
     (let message_type = map_of msg ''type'';
          locks_to_acquire =
            [''clients_lock''] @
            (if message_type = Some (PStr ''state_update'') then [''system_lock''] else []);
          (acquired_locks, st1) = acquire_locks_in_order locks_to_acquire st;
          (st2, err) =
            (if message_type = Some (PStr ''register'')
               then register_client now client_id msg client_socket address st1
             else if message_type = Some (PStr ''state_update'')
               then update_client_state now client_id msg st1
             else if message_type = Some (PStr ''heartbeat'')
               then update_client_heartbeat now client_id st1
             else (st1, None));
          st3 = (case err of
                   None \<Rightarrow> st2\<lparr> stats := (stats st2)\<lparr> messages_processed :=
                                   Suc (messages_processed (stats st2)) \<rparr> \<rparr>
                 | Some e \<Rightarrow> st2)
      in (release_locks acquired_locks st3, err))"

section \<open>Emergency override\<close>

text \<open>\<^verbatim>\<open>if target_intersection:\<close> is false for \<^verbatim>\<open>None\<close> and for the empty string.\<close>

definition emergency_override :: "string option \<Rightarrow> string \<Rightarrow> real \<Rightarrow> server \<Rightarrow> server" where
  "emergency_override target_intersection emergency_state now st =
     (let st1 = st\<lparr> system_state := (system_state st)\<lparr> emergency_mode := True \<rparr>,
                    stats := (stats st)\<lparr> emergency_overrides :=
                                            Suc (emergency_overrides (stats st)) \<rparr> \<rparr>;
          msg = emergency_override_msg emergency_state now target_intersection
      in case target_intersection of
           None \<Rightarrow> broadcast_message msg st1
         | Some target \<Rightarrow>
             if target = [] then broadcast_message msg st1
             else with_clients_lock (\<lambda>s.
                    foldl (\<lambda>s' (client_id, info).
                             if ci_intersection info = PStr target
                             then snd (send_to_client client_id msg s') else s')
                          s (clients s)) st1)"

section \<open>Liveness monitor\<close>

text \<open>The removal loop of \<^verbatim>\<open>system_monitor\<close>; an exception leaves the loop.\<close>

fun remove_all :: "pyval list \<Rightarrow> server \<Rightarrow> server \<times> exn option" where
  "remove_all [] st = (st, None)"
| "remove_all (client_id # rest) st =
     (case remove_client client_id st of
        (st1, None) \<Rightarrow> remove_all rest st1
      | (st1, Some e) \<Rightarrow> (st1, Some e))"

text \<open>\<^verbatim>\<open>log_system_stats\<close> reads a status snapshot under the lock and changes nothing else.\<close>

definition log_system_stats :: "server \<Rightarrow> server" where
  "log_system_stats st = with_clients_lock (\<lambda>s. s) st"

text \<open>One pass of the \<^verbatim>\<open>system_monitor\<close> loop after its sleep, at time \<open>current_time\<close>.\<close>

definition system_monitor :: "real \<Rightarrow> server \<Rightarrow> server" where
  "system_monitor current_time st =
     (let inactive_clients =
            map fst (filter (\<lambda>(client_id, info).
                               current_time - ci_last_heartbeat info > 60) (clients st));
          st1 = with_clients_lock (\<lambda>s. s) st
      in case remove_all inactive_clients st1 of
           (st2, None) \<Rightarrow> log_system_stats st2
         | (st2, Some e) \<Rightarrow> st2)"

section \<open>Connections\<close>

text \<open>What one \<^verbatim>\<open>recv\<close> of a connection yields: a decoded JSON object, processed at the
  given time, or bytes for which \<^verbatim>\<open>recv\<close>, \<^verbatim>\<open>json.loads\<close> or \<^verbatim>\<open>message.get\<close> raises. The end
  of the list is the peer closing the connection (\<^verbatim>\<open>recv\<close> returns no data).\<close>

datatype packet = Packet real message | Garbled

definition sock_close :: "nat \<Rightarrow> server \<Rightarrow> server" where
  "sock_close s st = st\<lparr> closed := insert s (closed st) \<rparr>"

text \<open>The \<^verbatim>\<open>while self.running\<close> loop of \<^verbatim>\<open>handle_client\<close>; it returns the last value of
  \<^verbatim>\<open>client_id\<close>. An exception is caught and logged and ends the loop.\<close>

fun handle_loop :: "nat \<Rightarrow> string \<Rightarrow> packet list \<Rightarrow> pyval \<Rightarrow> server \<Rightarrow> server \<times> pyval" where
  "handle_loop client_socket address [] client_id st = (st, client_id)"
| "handle_loop client_socket address (p # rest) client_id st =
     (if \<not> running st then (st, client_id)
      else case p of
        Garbled \<Rightarrow> (st, client_id)
      | Packet now msg \<Rightarrow>
          (let client_id1 = dict_get msg ''light_id'' PNone
           in case process_client_message now client_id1 msg client_socket address st of
                (st1, None) \<Rightarrow> handle_loop client_socket address rest client_id1 st1
              | (st1, Some e) \<Rightarrow> (st1, client_id1)))"

text \<open>\<^verbatim>\<open>handle_client\<close> with its \<^verbatim>\<open>finally\<close> block: an exception of \<^verbatim>\<open>remove_client\<close> leaves
  the block before the handle is closed.\<close>

definition handle_client :: "nat \<Rightarrow> string \<Rightarrow> packet list \<Rightarrow> server \<Rightarrow> server \<times> exn option" where
  "handle_client client_socket address packets st =
     (let (st1, client_id) = handle_loop client_socket address packets PNone st
      in if truthy client_id
         then (case remove_client client_id st1 of
                 (st2, None) \<Rightarrow> (sock_close client_socket st2, None)
               | (st2, Some e) \<Rightarrow> (st2, Some e))
         else (sock_close client_socket st1, None))"

text \<open>\<^verbatim>\<open>start_server\<close> when the listening socket could be bound, and \<^verbatim>\<open>stop_server\<close>.\<close>

definition start_server :: "server \<Rightarrow> server" where
  "start_server st = st\<lparr> running := True \<rparr>"

definition stop_server :: "server \<Rightarrow> server" where
  "stop_server st =
     with_clients_lock (\<lambda>s. s\<lparr> closed := closed s \<union> snd ` set (client_sockets s) \<rparr>)
       (st\<lparr> running := False \<rparr>)"

section \<open>Runs of the coordinator\<close>

text \<open>The operations that threads of the coordinator perform, one at a time.\<close>

datatype event =
    Start
  | Stop
  | Dispatch real pyval message nat string
  | Connection nat string "packet list"
  | Remove pyval
  | Monitor real
  | Periodic real
  | Trigger real
  | TimerFires real
  | Emergency "string option" string real

fun step :: "server \<Rightarrow> event \<Rightarrow> server" where
  "step st Start = start_server st"
| "step st Stop = stop_server st"
| "step st (Dispatch now client_id msg client_socket address) =
     fst (process_client_message now client_id msg client_socket address st)"
| "step st (Connection client_socket address packets) =
     fst (handle_client client_socket address packets st)"
| "step st (Remove client_id) = fst (remove_client client_id st)"
| "step st (Monitor now) = system_monitor now st"
| "step st (Periodic now) = periodic_sync now st"
| "step st (Trigger now) = trigger_synchronization now st"
| "step st (TimerFires t) = timer_fires t st"
| "step st (Emergency target_intersection emergency_state now) =
     emergency_override target_intersection emergency_state now st"

definition run :: "real \<Rightarrow> event list \<Rightarrow> server" where
  "run t0 evs = foldl step (init_server t0) evs"

section \<open>The traffic-light agent\<close>

text \<open>The agent of \<^verbatim>\<open>src/traffic_light.py\<close>. \<open>clock\<close> is what \<^verbatim>\<open>time.time()\<close> returns; a sleep
  advances it. \<open>sent\<close> lists the messages written to the socket, and \<open>held\<close> lists, for
  every sleep, the state the light shows during it and its length in seconds.\<close>

datatype TrafficLightState = RED | YELLOW | GREEN

fun state_name :: "TrafficLightState \<Rightarrow> string" where
  "state_name RED = ''RED''"
| "state_name YELLOW = ''YELLOW''"
| "state_name GREEN = ''GREEN''"

text \<open>\<^verbatim>\<open>TrafficLightState[name]\<close>; \<open>None\<close> is the \<^verbatim>\<open>KeyError\<close>.\<close>

definition state_of_name :: "string \<Rightarrow> TrafficLightState option" where
  "state_of_name name =
     (if name = ''RED'' then Some RED
      else if name = ''YELLOW'' then Some YELLOW
      else if name = ''GREEN'' then Some GREEN
      else None)"

text \<open>\<^verbatim>\<open>str.upper\<close> on ASCII letters.\<close>

definition upper_char :: "char \<Rightarrow> char" where
  "upper_char c =
     (let n = (of_char c :: nat) in if 97 \<le> n \<and> n \<le> 122 then char_of (n - 32) else c)"

definition upper :: "string \<Rightarrow> string" where
  "upper s = map upper_char s"

record state_update =
  su_light_id :: string
  su_intersection :: string
  su_state :: string
  su_timestamp :: real
  su_position :: "int \<times> int"

record traffic_light =
  light_id :: string
  intersection_name :: string
  position_x :: int
  position_y :: int
  current_state :: TrafficLightState
  previous_state :: TrafficLightState
  connected :: bool
  state_changes :: nat
  clock :: real
  sent :: "state_update list"
  held :: "(TrafficLightState \<times> nat) list"

text \<open>\<^verbatim>\<open>TrafficLight.__init__\<close> at time \<open>now\<close>.\<close>

definition new_traffic_light :: "string \<Rightarrow> string \<Rightarrow> int \<Rightarrow> int \<Rightarrow> real \<Rightarrow> traffic_light" where
  "new_traffic_light lid name x y now =
     \<lparr> light_id = lid, intersection_name = name, position_x = x, position_y = y,
       current_state = RED, previous_state = RED, connected = False,
       state_changes = 0, clock = now, sent = [], held = [] \<rparr>"

definition send_state_to_server ::
  "TrafficLightState \<Rightarrow> real \<Rightarrow> traffic_light \<Rightarrow> bool \<times> traffic_light" where
  "send_state_to_server state timestamp lt =
     (if \<not> connected lt then (False, lt)
      else (True,
            lt\<lparr> sent := sent lt @
                   [\<lparr> su_light_id = light_id lt,
                      su_intersection = intersection_name lt,
                      su_state = state_name state,
                      su_timestamp = timestamp,
                      su_position = (position_x lt, position_y lt) \<rparr>] \<rparr>))"

definition change_state :: "TrafficLightState \<Rightarrow> traffic_light \<Rightarrow> bool \<times> traffic_light" where
  "change_state new_state lt =
     (if current_state lt \<noteq> new_state then
        let lt1 = lt\<lparr> previous_state := current_state lt,
                      current_state := new_state,
                      state_changes := Suc (state_changes lt) \<rparr>;
            timestamp = clock lt1
        in (True, snd (send_state_to_server new_state timestamp lt1))
      else (False, lt))"

text \<open>\<^verbatim>\<open>STATE_DURATIONS.get(state.name, 5)\<close> with the table of \<^verbatim>\<open>src/config.py\<close>.\<close>

fun get_state_duration :: "TrafficLightState \<Rightarrow> nat" where
  "get_state_duration RED = 8"
| "get_state_duration YELLOW = 3"
| "get_state_duration GREEN = 10"

definition sleep :: "nat \<Rightarrow> traffic_light \<Rightarrow> traffic_light" where
  "sleep d lt = lt\<lparr> clock := clock lt + real d, held := held lt @ [(current_state lt, d)] \<rparr>"

text \<open>\<^verbatim>\<open>handle_emergency_override\<close>: an unknown name is a \<^verbatim>\<open>KeyError\<close>, caught and logged; a
  state that is no string has no \<^verbatim>\<open>upper\<close>, and that \<^verbatim>\<open>AttributeError\<close> leaves the function.\<close>

definition handle_emergency_override :: "message \<Rightarrow> traffic_light \<Rightarrow> traffic_light \<times> exn option" where
  "handle_emergency_override command lt =
     (case dict_get command ''state'' (PStr ''RED'') of
        PStr emergency_state \<Rightarrow>
          (case state_of_name (upper emergency_state) of
             Some new_state \<Rightarrow> (sleep 5 (snd (change_state new_state lt)), None)
           | None \<Rightarrow> (lt, None))
      | _ \<Rightarrow> (lt, Some AttributeError))"

text \<open>One pass of the \<^verbatim>\<open>for state in [RED, GREEN, YELLOW]\<close> loop: the state is applied and
  held for its duration (the hundred-millisecond sleeps add up to it).\<close>

definition cycle_step :: "traffic_light \<Rightarrow> TrafficLightState \<Rightarrow> traffic_light" where
  "cycle_step lt state = sleep (get_state_duration state) (snd (change_state state lt))"

text \<open>\<^verbatim>\<open>connect_to_server\<close> when the connection is made, and
  \<^verbatim>\<open>receive_command_from_server\<close>: an agent that is not connected receives nothing; for a
  connected one the first argument is what the read of the socket yields (\<open>None\<close> for a
  timeout, an error or no data).\<close>

definition connect_to_server :: "traffic_light \<Rightarrow> traffic_light" where
  "connect_to_server lt = lt\<lparr> connected := True \<rparr>"

definition receive_command_from_server :: "message option \<Rightarrow> traffic_light \<Rightarrow> message option" where
  "receive_command_from_server received lt = (if \<not> connected lt then None else received)"

definition is_emergency :: "message option \<Rightarrow> bool" where
  "is_emergency command =
     (case command of
        None \<Rightarrow> False
      | Some c \<Rightarrow> c \<noteq> [] \<and> map_of c ''type'' = Some (PStr ''emergency_override''))"

text \<open>\<^verbatim>\<open>traffic_light_cycle\<close>: the list holds what the socket yields at the top of each pass of
  the \<^verbatim>\<open>while self.running\<close> loop; \<^verbatim>\<open>stop()\<close> is the end of the list. An exception in the
  pass is caught and followed by a sleep of one second.\<close>

fun traffic_light_cycle :: "message option list \<Rightarrow> traffic_light \<Rightarrow> traffic_light" where
  "traffic_light_cycle [] lt = lt"
| "traffic_light_cycle (received # rest) lt =
     (let command = receive_command_from_server received lt
      in if is_emergency command then
           (case handle_emergency_override (the command) lt of
              (lt1, None) \<Rightarrow> traffic_light_cycle rest lt1
            | (lt1, Some e) \<Rightarrow> traffic_light_cycle rest (sleep 1 lt1))
         else traffic_light_cycle rest (foldl cycle_step lt [RED, GREEN, YELLOW]))"

text \<open>The names of the states an agent has reported to the coordinator, in order.\<close>

definition reported :: "traffic_light \<Rightarrow> string list" where
  "reported lt = map su_state (sent lt)"

text \<open>A sequence of \<^verbatim>\<open>change_state\<close> calls, as the cycle thread and the command thread of an agent make them.\<close>

definition change_states :: "TrafficLightState list \<Rightarrow> traffic_light \<Rightarrow> traffic_light" where
  "change_states states lt = foldl (\<lambda>t s. snd (change_state s t)) lt states"

text \<open>The number of actual transitions when the states of a list are requested one after
  another, starting from state \<open>c\<close>: a request for the state already shown is none.\<close>

fun transitions :: "TrafficLightState \<Rightarrow> TrafficLightState list \<Rightarrow> nat" where
  "transitions c [] = 0"
| "transitions c (s # ss) = (if s \<noteq> c then 1 else 0) + transitions s ss"

section \<open>Notions used to state the properties\<close>

text \<open>The handles that \<^verbatim>\<open>send_to_client\<close> writes to when it is called for a list of ids, in
  order: an id without a handle is skipped.\<close>

definition handles_of :: "(pyval \<times> nat) list \<Rightarrow> pyval list \<Rightarrow> nat list" where
  "handles_of socks ids = concat (map (\<lambda>c. case map_of socks c of None \<Rightarrow> [] | Some s \<Rightarrow> [s]) ids)"

text \<open>A well-formed registry: the derived count is the size of \<open>clients\<close>, the handle kept in
  \<open>client_sockets\<close> for an id is the one in its session, and no id occurs twice (the two
  lists stand for Python dictionaries).\<close>

definition registry_inv :: "server \<Rightarrow> bool" where
  "registry_inv st \<longleftrightarrow>
     total_clients (system_state st) = length (clients st)
     \<and> client_sockets st = map (\<lambda>(c, info). (c, ci_socket info)) (clients st)
     \<and> distinct (map fst (clients st))"

text \<open>A message of one of the three types the dispatcher has a handler for, and the one way
  a handler raises: an id that cannot be a dictionary key.\<close>

definition classified :: "message \<Rightarrow> bool" where
  "classified m \<longleftrightarrow>
     map_of m ''type'' = Some (PStr ''register'')
     \<or> map_of m ''type'' = Some (PStr ''state_update'')
     \<or> map_of m ''type'' = Some (PStr ''heartbeat'')"

definition handler_raises :: "pyval \<Rightarrow> message \<Rightarrow> bool" where
  "handler_raises client_id m \<longleftrightarrow> classified m \<and> \<not> hashable client_id"

text \<open>The \<^verbatim>\<open>if\<close>/\<^verbatim>\<open>elif\<close> chain of \<^verbatim>\<open>process_client_message\<close> on its own.\<close>

definition handler :: "real \<Rightarrow> pyval \<Rightarrow> message \<Rightarrow> nat \<Rightarrow> string \<Rightarrow> server \<Rightarrow> server \<times> exn option" where
  "handler now cid m sock addr st =
     (if map_of m ''type'' = Some (PStr ''register'') then register_client now cid m sock addr st
      else if map_of m ''type'' = Some (PStr ''state_update'') then update_client_state now cid m st
      else if map_of m ''type'' = Some (PStr ''heartbeat'') then update_client_heartbeat now cid st
      else (st, None))"

text \<open>A sequence of calls of \<^verbatim>\<open>process_client_message\<close>, from any connections, one after
  another; a call is counted when its handler does not raise.\<close>

definition dispatch_all :: "server \<Rightarrow> (real \<times> pyval \<times> message \<times> nat \<times> string) list \<Rightarrow> server" where
  "dispatch_all st calls =
     foldl (\<lambda>s (now, client_id, msg, client_socket, address).
              fst (process_client_message now client_id msg client_socket address s)) st calls"

definition counted :: "(real \<times> pyval \<times> message \<times> nat \<times> string) \<Rightarrow> bool" where
  "counted call = (case call of (now, client_id, msg, client_socket, address) \<Rightarrow>
                     \<not> handler_raises client_id msg)"


text \<open>The scenario of two registered agents: \<^verbatim>\<open>A1\<close> at \<^verbatim>\<open>Centro\<close> on handle 1 and \<^verbatim>\<open>A2\<close> at \<^verbatim>\<open>Sur\<close>
  on handle 2, both registered at time 0 on a started coordinator.\<close>

definition two_agents :: server where
  "two_agents = run 0 [Start,
      Dispatch 0 (PStr ''A1'') [(''type'', PStr ''register''), (''light_id'', PStr ''A1''),
                                (''intersection'', PStr ''Centro'')] 1 ''a1'',
      Dispatch 0 (PStr ''A2'') [(''type'', PStr ''register''), (''light_id'', PStr ''A2''),
                                (''intersection'', PStr ''Sur'')] 2 ''a2'']"

section \<open>The coordinator: closed forms of the operations\<close>

lemma handles_of_simps [simp]:
  "handles_of socks [] = []"
  "handles_of socks (c # cs) = (case map_of socks c of None \<Rightarrow> [] | Some s \<Rightarrow> [s]) @ handles_of socks cs"
  by (simp_all add: handles_of_def)

lemma handles_of_keys:
  assumes "distinct (map fst socks)"
  shows "handles_of socks (map fst socks) = map snd socks"
proof -
  have "\<And>p. p \<in> set socks \<Longrightarrow> map_of socks (fst p) = Some (snd p)"
    using assms by simp
  then have "map (\<lambda>c. case map_of socks c of None \<Rightarrow> [] | Some s \<Rightarrow> [s]) (map fst socks)
               = map (\<lambda>p. [snd p]) socks"
    by simp
  then show ?thesis
    by (simp only: handles_of_def concat_map_singleton)
qed

lemma send_fold_closed:
  "foldl (\<lambda>s c. snd (send_to_client c m s)) st cs =
     st\<lparr> send_calls := send_calls st @ map (\<lambda>s. (s, m)) (handles_of (client_sockets st) cs) \<rparr>"
  by (induction cs arbitrary: st) (simp_all add: send_to_client_def split: option.splits)


lemma with_clients_lock_closed:
  "with_clients_lock body st =
     (body (rlock_acquire st))\<lparr> clients_lock := clients_lock (body (rlock_acquire st)) - 1,
        lock_trace := lock_trace (body (rlock_acquire st)) @ [Released ''clients_lock''] \<rparr>"
  if "clients_lock (body (rlock_acquire st)) \<noteq> 0"
  using that by (simp add: with_clients_lock_def rlock_release_def)

lemma broadcast_message_closed:
  "broadcast_message m st =
     st\<lparr> send_calls := send_calls st @
            map (\<lambda>s. (s, m)) (handles_of (client_sockets st) (map fst (client_sockets st))),
         lock_trace := lock_trace st @ [Acquired ''clients_lock'', Released ''clients_lock''] \<rparr>"
  by (simp add: broadcast_message_def with_clients_lock_def rlock_release_def rlock_acquire_def
        send_fold_closed)

lemma trigger_synchronization_closed:
  "trigger_synchronization now st =
     (if sync_in_progress (system_state st) then st
      else st\<lparr> system_state := (system_state st)\<lparr> sync_in_progress := True, last_sync := now \<rparr>,
               stats := (stats st)\<lparr> sync_operations := Suc (sync_operations (stats st)) \<rparr>,
               send_calls := send_calls st @
                 map (\<lambda>s. (s, sync_request now ''SIGET_CENTRAL''))
                     (handles_of (client_sockets st) (map fst (client_sockets st))),
               lock_trace := lock_trace st @ [Acquired ''clients_lock'', Released ''clients_lock''],
               timers := timers st @ [now + 5] \<rparr>)"
  by (simp add: trigger_synchronization_def broadcast_message_closed Let_def)

lemma acquire_loop_closed:
  "acquire_loop ns acc st =
     (acc @ filter (\<lambda>n. n = ''clients_lock'') ns,
      st\<lparr> clients_lock := clients_lock st + length (filter (\<lambda>n. n = ''clients_lock'') ns),
          lock_trace := lock_trace st @ map Acquired (filter (\<lambda>n. n = ''clients_lock'') ns),
          lock_visits := lock_visits st @ map AcquireVisit ns \<rparr>)"
  by (induction ns arbitrary: acc st) (simp_all add: rlock_acquire_def visit_def)

lemma order_key_clients_lock: "order_key y = Suc 0 \<longleftrightarrow> y = ''clients_lock''"
  by (simp add: order_key_def resource_order_def)

lemma filter_sorted_locks:
  "filter (\<lambda>n. n = ''clients_lock'') (sort_key order_key names) =
   filter (\<lambda>n. n = ''clients_lock'') names"
  using sort_key_stable [of order_key "Suc 0" names] by (simp add: order_key_clients_lock)

lemma acquire_locks_in_order_closed:
  "acquire_locks_in_order names st =
     (filter (\<lambda>n. n = ''clients_lock'') names,
      st\<lparr> clients_lock := clients_lock st + length (filter (\<lambda>n. n = ''clients_lock'') names),
          lock_trace := lock_trace st @ map Acquired (filter (\<lambda>n. n = ''clients_lock'') names),
          lock_visits := lock_visits st @ map AcquireVisit (sort_key order_key names),
          active_locks := active_locks st \<union> set (filter (\<lambda>n. n = ''clients_lock'') names),
          stats := (stats st)\<lparr> deadlock_preventions := Suc (deadlock_preventions (stats st)) \<rparr> \<rparr>)"
  by (simp add: acquire_locks_in_order_def acquire_loop_closed filter_sorted_locks)

lemma release_fold_replicate:
  "k \<le> clients_lock st \<Longrightarrow>
   foldl release_one st (replicate k ''clients_lock'') =
     (if k = 0 then st
      else st\<lparr> clients_lock := clients_lock st - k,
               lock_trace := lock_trace st @ replicate k (Released ''clients_lock''),
               lock_visits := lock_visits st @ replicate k (ReleaseVisit ''clients_lock''),
               active_locks := active_locks st - {''clients_lock''} \<rparr>)"
proof (induction k arbitrary: st)
  case 0
  then show ?case by simp
next
  case (Suc k)
  let ?s = "release_one st ''clients_lock''"
  have s: "?s = st\<lparr> clients_lock := clients_lock st - 1,
                     lock_trace := lock_trace st @ [Released ''clients_lock''],
                     lock_visits := lock_visits st @ [ReleaseVisit ''clients_lock''],
                     active_locks := active_locks st - {''clients_lock''} \<rparr>"
    using Suc.prems by (simp add: release_one_def rlock_release_def visit_def)
  have "k \<le> clients_lock ?s" using Suc.prems by (simp add: s)
  from Suc.IH [OF this] show ?case
    by (simp add: s)
qed

lemma release_locks_replicate:
  "k \<le> clients_lock st \<Longrightarrow>
   release_locks (replicate k ''clients_lock'') st =
     (if k = 0 then st
      else st\<lparr> clients_lock := clients_lock st - k,
               lock_trace := lock_trace st @ replicate k (Released ''clients_lock''),
               lock_visits := lock_visits st @ replicate k (ReleaseVisit ''clients_lock''),
               active_locks := active_locks st - {''clients_lock''} \<rparr>)"
  by (simp add: release_locks_def release_fold_replicate)

lemma filter_eq_replicate:
  "filter (\<lambda>n. n = a) ns = replicate (length (filter (\<lambda>n. n = a) ns)) a"
  by (induction ns) simp_all


lemma register_client_closed:
  "hashable cid \<Longrightarrow>
   register_client now cid m sock addr st =
     (st\<lparr> clients := AList.update cid
             \<lparr> ci_id = cid,
               ci_intersection = dict_get m ''intersection'' (PStr ''Unknown''),
               ci_position = dict_get m ''position'' (PTuple [PInt 0, PInt 0]),
               ci_state = dict_get m ''state'' (PStr ''RED''),
               ci_last_heartbeat = now, ci_socket = sock, ci_address = addr,
               ci_state_changes = 0 \<rparr> (clients st),
           client_sockets := AList.update cid sock (client_sockets st),
           client_locks := AList.update cid () (client_locks st),
           system_state := (system_state st)\<lparr> total_clients :=
             length (AList.update cid
               \<lparr> ci_id = cid,
                 ci_intersection = dict_get m ''intersection'' (PStr ''Unknown''),
                 ci_position = dict_get m ''position'' (PTuple [PInt 0, PInt 0]),
                 ci_state = dict_get m ''state'' (PStr ''RED''),
                 ci_last_heartbeat = now, ci_socket = sock, ci_address = addr,
                 ci_state_changes = 0 \<rparr> (clients st)) \<rparr>,
           send_calls := send_calls st @ [(sock, registration_confirmed now cid)] \<rparr>, None)"
  by (simp add: register_client_def send_to_client_def Let_def update_conv')

lemma delete_absent: "map_of al k = None \<Longrightarrow> AList.delete k al = al"
  by (simp add: map_of_eq_None_iff)

lemma remove_client_closed:
  "hashable cid \<Longrightarrow>
   remove_client cid st =
     ((if map_of (clients st) cid \<noteq> None
       then st\<lparr> clients := AList.delete cid (clients st),
                client_sockets := AList.delete cid (client_sockets st),
                client_locks := AList.delete cid (client_locks st),
                system_state := (system_state st)\<lparr> total_clients :=
                                  length (AList.delete cid (clients st)) \<rparr> \<rparr>
       else st)\<lparr> lock_trace := lock_trace st @
                   [Acquired ''clients_lock'', Released ''clients_lock''] \<rparr>, None)"
proof -
  assume h: "hashable cid"
  show ?thesis
  proof (cases "map_of (clients st) cid")
    case None
    then show ?thesis using h
      by (simp add: remove_client_def with_clients_lock_def rlock_release_def rlock_acquire_def)
  next
    case (Some info)
    show ?thesis
    proof (cases "map_of (client_sockets st) cid"; cases "map_of (client_locks st) cid")
    qed (use h Some in \<open>simp_all add: remove_client_def with_clients_lock_def rlock_release_def
          rlock_acquire_def Let_def delete_absent del: map_of_eq_None_iff\<close>)
  qed
qed

lemma remove_client_unhashable:
  "\<not> hashable cid \<Longrightarrow>
   remove_client cid st =
     (st\<lparr> lock_trace := lock_trace st @
            [Acquired ''clients_lock'', Released ''clients_lock''] \<rparr>, Some TypeError)"
  by (simp add: remove_client_def with_clients_lock_def rlock_release_def rlock_acquire_def)

lemma release_locks_single:
  "clients_lock st \<noteq> 0 \<Longrightarrow>
   release_locks [''clients_lock''] st =
     st\<lparr> clients_lock := clients_lock st - 1,
         lock_trace := lock_trace st @ [Released ''clients_lock''],
         lock_visits := lock_visits st @ [ReleaseVisit ''clients_lock''],
         active_locks := active_locks st - {''clients_lock''} \<rparr>"
  by (simp add: release_locks_def release_one_def rlock_release_def visit_def)

lemma handler_error:
  "snd (handler now cid m sock addr st) = (if handler_raises cid m then Some TypeError else None)"
  by (simp add: handler_def handler_raises_def classified_def register_client_def
        update_client_state_def update_client_heartbeat_def Let_def split: option.splits)

lemma handler_lock:
  "clients_lock (fst (handler now cid m sock addr st)) = clients_lock st"
  by (simp add: handler_def register_client_def send_to_client_def
        update_client_state_def update_client_heartbeat_def trigger_synchronization_closed
        Let_def split: option.splits)

lemma handler_counter:
  "messages_processed (stats (fst (handler now cid m sock addr st))) = messages_processed (stats st)"
  by (simp add: handler_def register_client_def send_to_client_def
        update_client_state_def update_client_heartbeat_def trigger_synchronization_closed
        Let_def split: option.splits)

lemma process_client_message_unfold:
  "process_client_message now cid m sock addr st =
     (let st1 = st\<lparr> clients_lock := Suc (clients_lock st),
                    lock_trace := lock_trace st @ [Acquired ''clients_lock''],
                    lock_visits := lock_visits st @
                      (if map_of m ''type'' = Some (PStr ''state_update'')
                       then [AcquireVisit ''system_lock'', AcquireVisit ''clients_lock'']
                       else [AcquireVisit ''clients_lock'']),
                    active_locks := insert ''clients_lock'' (active_locks st),
                    stats := (stats st)\<lparr> deadlock_preventions :=
                                            Suc (deadlock_preventions (stats st)) \<rparr> \<rparr>;
          st2 = fst (handler now cid m sock addr st1);
          st3 = (if handler_raises cid m then st2
                 else st2\<lparr> stats := (stats st2)\<lparr> messages_processed :=
                                         Suc (messages_processed (stats st2)) \<rparr> \<rparr>)
      in (st3\<lparr> clients_lock := clients_lock st,
              lock_trace := lock_trace st3 @ [Released ''clients_lock''],
              lock_visits := lock_visits st3 @ [ReleaseVisit ''clients_lock''],
              active_locks := active_locks st3 - {''clients_lock''} \<rparr>,
          if handler_raises cid m then Some TypeError else None))"
proof -
  let ?st1 = "st\<lparr> clients_lock := Suc (clients_lock st),
                    lock_trace := lock_trace st @ [Acquired ''clients_lock''],
                    lock_visits := lock_visits st @
                      (if map_of m ''type'' = Some (PStr ''state_update'')
                       then [AcquireVisit ''system_lock'', AcquireVisit ''clients_lock'']
                       else [AcquireVisit ''clients_lock'']),
                    active_locks := insert ''clients_lock'' (active_locks st),
                    stats := (stats st)\<lparr> deadlock_preventions :=
                                            Suc (deadlock_preventions (stats st)) \<rparr> \<rparr>"
  let ?names = "[''clients_lock''] @
            (if map_of m ''type'' = Some (PStr ''state_update'') then [''system_lock''] else [])"
  have acq: "acquire_locks_in_order ?names st = ([''clients_lock''], ?st1)"
    by (simp add: acquire_locks_in_order_closed order_key_def resource_order_def)
  obtain st2 err where h: "handler now cid m sock addr ?st1 = (st2, err)"
    by (cases "handler now cid m sock addr ?st1")
  have err: "err = (if handler_raises cid m then Some TypeError else None)"
    using handler_error [of now cid m sock addr ?st1] h by simp
  have lk: "clients_lock st2 = Suc (clients_lock st)"
    using handler_lock [of now cid m sock addr ?st1] h by simp
  have pcm: "process_client_message now cid m sock addr st =
          (release_locks [''clients_lock'']
             (case err of None \<Rightarrow> st2\<lparr> stats := (stats st2)\<lparr> messages_processed :=
                                   Suc (messages_processed (stats st2)) \<rparr> \<rparr>
                 | Some e \<Rightarrow> st2), err)"
    using h acq unfolding process_client_message_def handler_def Let_def
    by (simp del: append.simps)
  show ?thesis
    unfolding pcm Let_def h fst_conv
    using lk by (simp add: err release_locks_single)
qed


lemma map_socket_update:
  "map (\<lambda>(c, info). (c, ci_socket info)) (AList.update k v al) =
   AList.update k (ci_socket v) (map (\<lambda>(c, info). (c, ci_socket info)) al)"
  by (induction al) auto

lemma map_socket_delete:
  "map (\<lambda>(c, info). (c, ci_socket info)) (AList.delete k al) =
   AList.delete k (map (\<lambda>(c, info). (c, ci_socket info)) al)"
  by (induction al) auto

lemma map_socket_same:
  "map_of al k = Some info \<Longrightarrow> ci_socket v = ci_socket info \<Longrightarrow>
   map (\<lambda>(c, info). (c, ci_socket info)) (AList.update k v al) =
   map (\<lambda>(c, info). (c, ci_socket info)) al"
  by (induction al) (auto split: if_splits)

lemma length_update_present:
  "map_of al k = Some v' \<Longrightarrow> length (AList.update k v al) = length al"
  by (induction al) (auto split: if_splits)

lemma keys_update_present:
  "map_of al k = Some v' \<Longrightarrow> map fst (AList.update k v al) = map fst al"
  by (induction al) (auto split: if_splits)

lemma registry_inv_cong:
  "clients a = clients b \<Longrightarrow> client_sockets a = client_sockets b \<Longrightarrow>
   total_clients (system_state a) = total_clients (system_state b) \<Longrightarrow>
   registry_inv a = registry_inv b"
  by (simp add: registry_inv_def)

lemma register_client_inv:
  "registry_inv st \<Longrightarrow> registry_inv (fst (register_client now cid m sock addr st))"
proof (cases "hashable cid")
  case True
  assume "registry_inv st"
  then show ?thesis
    by (simp add: register_client_closed [OF True] registry_inv_def map_socket_update
          distinct_update)
next
  case False
  assume "registry_inv st"
  then show ?thesis using False by (simp add: register_client_def)
qed

lemma trigger_synchronization_inv:
  "registry_inv (trigger_synchronization now st) = registry_inv st"
  by (rule registry_inv_cong) (simp_all add: trigger_synchronization_closed)

lemma update_client_state_inv:
  "registry_inv st \<Longrightarrow> registry_inv (fst (update_client_state now cid m st))"
proof -
  assume inv: "registry_inv st"
  show ?thesis
  proof (cases "map_of (clients st) cid")
    case None
    then show ?thesis using inv by (simp add: update_client_state_def)
  next
    case (Some info)
    let ?st1 = "st\<lparr> clients := AList.update cid
        (info\<lparr> ci_state := dict_get m ''state'' (ci_state info), ci_last_heartbeat := now,
               ci_state_changes := Suc (ci_state_changes info) \<rparr>) (clients st) \<rparr>"
    have "registry_inv ?st1" using inv Some
      by (simp add: registry_inv_def map_socket_same length_update_present distinct_update)
    then show ?thesis using Some inv
      by (simp add: update_client_state_def Let_def trigger_synchronization_inv)
  qed
qed

lemma update_client_heartbeat_inv:
  "registry_inv st \<Longrightarrow> registry_inv (fst (update_client_heartbeat now cid st))"
  by (cases "map_of (clients st) cid")
     (simp_all add: update_client_heartbeat_def registry_inv_def map_socket_same
        length_update_present distinct_update)

lemma handler_inv:
  "registry_inv st \<Longrightarrow> registry_inv (fst (handler now cid m sock addr st))"
  by (simp add: handler_def register_client_inv update_client_state_inv
        update_client_heartbeat_inv)

lemma process_client_message_inv:
  assumes "registry_inv st"
  shows "registry_inv (fst (process_client_message now cid m sock addr st))"
proof -
  let ?st1 = "st\<lparr> clients_lock := Suc (clients_lock st),
                    lock_trace := lock_trace st @ [Acquired ''clients_lock''],
                    lock_visits := lock_visits st @
                      (if map_of m ''type'' = Some (PStr ''state_update'')
                       then [AcquireVisit ''system_lock'', AcquireVisit ''clients_lock'']
                       else [AcquireVisit ''clients_lock'']),
                    active_locks := insert ''clients_lock'' (active_locks st),
                    stats := (stats st)\<lparr> deadlock_preventions :=
                                            Suc (deadlock_preventions (stats st)) \<rparr> \<rparr>"
  have "registry_inv ?st1" using assms by (simp add: registry_inv_def)
  then have "registry_inv (fst (handler now cid m sock addr ?st1))"
    by (rule handler_inv)
  then show ?thesis
    by (simp add: process_client_message_unfold Let_def registry_inv_def)
qed

lemma remove_client_inv:
  "registry_inv st \<Longrightarrow> registry_inv (fst (remove_client cid st))"
  by (cases "hashable cid")
     (auto simp: remove_client_closed remove_client_unhashable registry_inv_def
        map_socket_delete distinct_delete)

lemma remove_all_inv:
  "registry_inv st \<Longrightarrow> registry_inv (fst (remove_all cs st))"
proof (induction cs arbitrary: st)
  case Nil
  then show ?case by simp
next
  case (Cons c cs)
  obtain st1 e where r: "remove_client c st = (st1, e)" by (cases "remove_client c st")
  have "registry_inv st1" using remove_client_inv [OF Cons.prems, of c] r by simp
  then show ?case using Cons.IH [of st1] r by (cases e) simp_all
qed

lemma with_lock_id_inv:
  "registry_inv (with_clients_lock (\<lambda>s. s) st) = registry_inv st"
  by (rule registry_inv_cong)
     (simp_all add: with_clients_lock_def rlock_release_def rlock_acquire_def)

lemma system_monitor_inv:
  "registry_inv st \<Longrightarrow> registry_inv (system_monitor now st)"
proof -
  assume inv: "registry_inv st"
  let ?cs = "map fst (filter (\<lambda>(client_id, info). now - ci_last_heartbeat info > 60) (clients st))"
  let ?st1 = "with_clients_lock (\<lambda>s. s) st"
  obtain st2 e where r: "remove_all ?cs ?st1 = (st2, e)" by (cases "remove_all ?cs ?st1")
  have "registry_inv ?st1" using inv by (simp add: with_lock_id_inv)
  then have "registry_inv st2" using remove_all_inv [of ?st1 ?cs] r by simp
  then show ?thesis using r
    by (cases e) (simp_all add: system_monitor_def Let_def log_system_stats_def with_lock_id_inv)
qed

lemma handle_loop_inv:
  "registry_inv st \<Longrightarrow> registry_inv (fst (handle_loop sock addr ps cid st))"
proof (induction ps arbitrary: cid st)
  case Nil
  then show ?case by simp
next
  case (Cons p ps)
  show ?case
  proof (cases p)
    case Garbled
    then show ?thesis using Cons.prems by simp
  next
    case (Packet now m)
    let ?c = "dict_get m ''light_id'' PNone"
    obtain st1 e where r: "process_client_message now ?c m sock addr st = (st1, e)"
      by (cases "process_client_message now ?c m sock addr st")
    have i1: "registry_inv st1"
      using process_client_message_inv [OF Cons.prems, of now ?c m sock addr] r by simp
    show ?thesis using Packet r i1 Cons.prems Cons.IH [OF i1, of ?c]
      by (cases e) (simp_all add: Let_def)
  qed
qed

lemma handle_client_inv:
  "registry_inv st \<Longrightarrow> registry_inv (fst (handle_client sock addr ps st))"
proof -
  assume inv: "registry_inv st"
  obtain st1 cid where l: "handle_loop sock addr ps PNone st = (st1, cid)"
    by (cases "handle_loop sock addr ps PNone st")
  have i1: "registry_inv st1" using handle_loop_inv [OF inv, of sock addr ps PNone] l by simp
  obtain st2 e where r: "remove_client cid st1 = (st2, e)" by (cases "remove_client cid st1")
  have i2: "registry_inv st2" using remove_client_inv [OF i1, of cid] r by simp
  show ?thesis using l r i1 i2
    by (cases e) (simp_all add: handle_client_def sock_close_def registry_inv_def)
qed

lemma emergency_fold_closed:
  "foldl (\<lambda>s' (client_id, info). if P info then snd (send_to_client client_id msg s') else s') st xs =
     st\<lparr> send_calls := send_calls st @
           map (\<lambda>s. (s, msg)) (handles_of (client_sockets st) (map fst (filter (\<lambda>(c, info). P info) xs))) \<rparr>"
  by (induction xs arbitrary: st) (auto simp: send_to_client_def split: option.splits)

lemma emergency_override_closed:
  "emergency_override target es now st =
     st\<lparr> system_state := (system_state st)\<lparr> emergency_mode := True \<rparr>,
         stats := (stats st)\<lparr> emergency_overrides := Suc (emergency_overrides (stats st)) \<rparr>,
         send_calls := send_calls st @
           map (\<lambda>s. (s, emergency_override_msg es now target))
             (handles_of (client_sockets st)
                (if target = None \<or> target = Some []
                 then map fst (client_sockets st)
                 else map fst (filter (\<lambda>(c, info). ci_intersection info = PStr (the target))
                                 (clients st)))),
         lock_trace := lock_trace st @ [Acquired ''clients_lock'', Released ''clients_lock''] \<rparr>"
  by (cases target)
     (simp_all add: emergency_override_def broadcast_message_closed Let_def
        with_clients_lock_def rlock_release_def rlock_acquire_def emergency_fold_closed)

lemma step_inv: "registry_inv st \<Longrightarrow> registry_inv (step st e)"
proof (cases e)
  case Start
  assume "registry_inv st" then show ?thesis using Start
    by (simp add: start_server_def registry_inv_def)
next
  case Stop
  assume "registry_inv st" then show ?thesis using Stop
    by (simp add: stop_server_def registry_inv_def with_clients_lock_def rlock_release_def
          rlock_acquire_def)
next
  case (Dispatch now cid m sock addr)
  assume "registry_inv st" then show ?thesis using Dispatch
    by (simp add: process_client_message_inv)
next
  case (Connection sock addr ps)
  assume "registry_inv st" then show ?thesis using Connection by (simp add: handle_client_inv)
next
  case (Remove cid)
  assume "registry_inv st" then show ?thesis using Remove by (simp add: remove_client_inv)
next
  case (Monitor now)
  assume "registry_inv st" then show ?thesis using Monitor by (simp add: system_monitor_inv)
next
  case (Periodic now)
  assume "registry_inv st" then show ?thesis using Periodic
    by (simp add: periodic_sync_def trigger_synchronization_inv)
next
  case (Trigger now)
  assume "registry_inv st" then show ?thesis using Trigger
    by (simp add: trigger_synchronization_inv)
next
  case (TimerFires t)
  assume "registry_inv st" then show ?thesis using TimerFires
    by (simp add: timer_fires_def complete_synchronization_def registry_inv_def)
next
  case (Emergency target es now)
  assume "registry_inv st" then show ?thesis using Emergency
    by (simp add: emergency_override_closed registry_inv_def)
qed

lemma foldl_step_inv: "registry_inv st \<Longrightarrow> registry_inv (foldl step st evs)"
  by (induction evs arbitrary: st) (simp_all add: step_inv)

lemma run_inv: "registry_inv (run t0 evs)"
  unfolding run_def
  by (rule foldl_step_inv) (simp add: registry_inv_def init_server_def)

lemmas eval_defs = run_def init_server_def start_server_def process_client_message_def
  acquire_locks_in_order_def order_key_def resource_order_def rlock_acquire_def visit_def
  rlock_release_def with_clients_lock_def release_locks_def release_one_def
  register_client_def send_to_client_def dict_get_def update_client_state_def
  update_client_heartbeat_def should_sync_clients_def trigger_synchronization_def
  broadcast_message_def remove_client_def system_monitor_def log_system_stats_def
  emergency_override_def Let_def


lemma process_client_message_counter:
  "messages_processed (stats (fst (process_client_message now cid m sock addr st))) =
     messages_processed (stats st) + (if handler_raises cid m then 0 else 1)"
  by (simp add: process_client_message_unfold Let_def handler_counter)

lemma dispatch_all_counter:
  "messages_processed (stats (dispatch_all st calls)) =
     messages_processed (stats st) + length (filter counted calls)"
  unfolding dispatch_all_def
  by (induction calls arbitrary: st)
     (auto simp: process_client_message_counter counted_def)

lemma process_client_message_error:
  "snd (process_client_message now cid m sock addr st) =
     (if handler_raises cid m then Some TypeError else None)"
  by (simp add: process_client_message_unfold Let_def)

text \<open>
  Claim C2, as amended. The counter \<^verbatim>\<open>messages_processed\<close> grows by one for every dispatched
  message whose handler does not raise, whatever its type: after any sequence of calls it
  has grown by the number of counted calls. In particular a message of unknown type is
  logged, raises nothing, and is counted.
\<close>

theorem messages_processed_counts_dispatched:
  "messages_processed (stats (dispatch_all st calls)) =
     messages_processed (stats st) + length (filter counted calls)
   \<and> (\<not> classified m \<longrightarrow>
        snd (process_client_message now cid m sock addr st) = None \<and>
        messages_processed (stats (fst (process_client_message now cid m sock addr st))) =
          Suc (messages_processed (stats st)))"
  by (simp add: dispatch_all_counter process_client_message_counter handler_raises_def
        process_client_message_error)

text \<open>
  Claim C2 as stated fails: a message of the unknown type \<^verbatim>\<open>ping\<close>, dispatched to a fresh
  coordinator, leaves the counter at one.
\<close>

theorem unknown_type_is_counted:
  "\<not> classified [(''type'', PStr ''ping''), (''light_id'', PStr ''A1'')]
   \<and> messages_processed (stats (init_server 0)) = 0
   \<and> messages_processed (stats (fst (process_client_message 0 (PStr ''A1'')
        [(''type'', PStr ''ping''), (''light_id'', PStr ''A1'')] 1 ''addr'' (init_server 0)))) = 1"
  by (simp add: process_client_message_counter handler_raises_def classified_def init_server_def)

lemma release_fold_visits:
  "lock_visits (foldl release_one st ns) = lock_visits st @ map ReleaseVisit ns"
  by (induction ns arbitrary: st)
     (simp_all add: release_one_def visit_def rlock_release_def Let_def)

lemma order_key_values:
  "order_key ''system_lock'' = 0" "order_key ''clients_lock'' = 1"
  "order_key ''message_lock'' = 2"
  by (simp_all add: order_key_def resource_order_def)

lemma order_key_unknown: "n \<notin> set resource_order \<Longrightarrow> order_key n = 999"
  by (simp add: order_key_def)

text \<open>
  Claim C3, as amended. For every list of lock names, the loop of
  \<^verbatim>\<open>acquire_locks_in_order\<close> reaches the names in the fixed resource order (\<^verbatim>\<open>system_lock\<close>,
  \<^verbatim>\<open>clients_lock\<close>, \<^verbatim>\<open>message_lock\<close>, any other name last), equal names in the order given.
  Only \<^verbatim>\<open>clients_lock\<close> is a real lock: what is acquired and returned is the \<^verbatim>\<open>clients_lock\<close>
  entries, one acquisition each. \<^verbatim>\<open>release_locks\<close> reaches the names it is given in reverse
  order; applied to the returned list it records the releases and brings the depth of the
  lock back to where it was. \<^verbatim>\<open>process_client_message\<close> leaves the depth of the lock
  unchanged on every path, also when the handler raises.
\<close>

theorem lock_visits_ordered_and_released:
  "lock_visits (snd (acquire_locks_in_order names st)) =
     lock_visits st @ map AcquireVisit (sort_key order_key names)
   \<and> sorted (map order_key (sort_key order_key names))
   \<and> mset (sort_key order_key names) = mset names
   \<and> order_key ''system_lock'' = 0 \<and> order_key ''clients_lock'' = 1
   \<and> order_key ''message_lock'' = 2 \<and> (n \<notin> set resource_order \<longrightarrow> order_key n = 999)
   \<and> fst (acquire_locks_in_order names st) =
       filter (\<lambda>n. n = ''clients_lock'') (sort_key order_key names)
   \<and> lock_trace (snd (acquire_locks_in_order names st)) =
       lock_trace st @ map Acquired (fst (acquire_locks_in_order names st))
   \<and> clients_lock (snd (acquire_locks_in_order names st)) =
       clients_lock st + length (fst (acquire_locks_in_order names st))
   \<and> lock_visits (release_locks ns st) = lock_visits st @ map ReleaseVisit (rev ns)
   \<and> lock_trace (release_locks (fst (acquire_locks_in_order names st))
                    (snd (acquire_locks_in_order names st))) =
       lock_trace (snd (acquire_locks_in_order names st)) @
       map Released (rev (fst (acquire_locks_in_order names st)))
   \<and> clients_lock (release_locks (fst (acquire_locks_in_order names st))
                      (snd (acquire_locks_in_order names st))) = clients_lock st
   \<and> clients_lock (fst (process_client_message now cid m sock addr st)) = clients_lock st"
proof -
  let ?k = "length (filter (\<lambda>n. n = ''clients_lock'') names)"
  let ?acq = "filter (\<lambda>n. n = ''clients_lock'') names"
  have rep: "?acq = replicate ?k ''clients_lock''" by (rule filter_eq_replicate)
  let ?st1 = "snd (acquire_locks_in_order names st)"
  have d: "?k \<le> clients_lock ?st1" by (simp add: acquire_locks_in_order_closed)
  have rel: "release_locks ?acq ?st1 =
       (if ?k = 0 then ?st1
        else ?st1\<lparr> clients_lock := clients_lock ?st1 - ?k,
               lock_trace := lock_trace ?st1 @ replicate ?k (Released ''clients_lock''),
               lock_visits := lock_visits ?st1 @ replicate ?k (ReleaseVisit ''clients_lock''),
               active_locks := active_locks ?st1 - {''clients_lock''} \<rparr>)"
    using release_locks_replicate [OF d] rep by simp
  have m: "map Released (rev ?acq) = replicate ?k (Released ''clients_lock'')"
    by (subst rep) simp
  have v: "lock_visits ?st1 = lock_visits st @ map AcquireVisit (sort_key order_key names)"
    by (simp add: acquire_locks_in_order_closed)
  have rv: "lock_visits (release_locks ns st) = lock_visits st @ map ReleaseVisit (rev ns)"
    by (simp add: release_locks_def release_fold_visits)
  have 1: "lock_trace (release_locks ?acq ?st1) = lock_trace ?st1 @ map Released (rev ?acq)"
    unfolding rel m by simp
  have 2: "clients_lock (release_locks ?acq ?st1) = clients_lock st"
    unfolding rel by (simp add: acquire_locks_in_order_closed)
  have 3: "clients_lock (fst (process_client_message now cid m sock addr st)) = clients_lock st"
    by (simp add: process_client_message_unfold Let_def)
  have f: "fst (acquire_locks_in_order names st) = ?acq"
    by (simp add: acquire_locks_in_order_closed)
  have 4: "lock_trace ?st1 = lock_trace st @ map Acquired ?acq"
    and 5: "clients_lock ?st1 = clients_lock st + length ?acq"
    by (simp_all add: acquire_locks_in_order_closed)
  have 6: "sorted (map order_key (sort_key order_key names))"
    and 7: "mset (sort_key order_key names) = mset names"
    by simp_all
  show ?thesis
    unfolding f filter_sorted_locks
    using v 6 7 order_key_values order_key_unknown [of n] 4 5 rv 1 2 3 by blast
qed

text \<open>
  Claim C3 as stated fails: asked for \<^verbatim>\<open>message_lock\<close> and \<^verbatim>\<open>system_lock\<close>, the helper reaches
  both names in resource order and acquires neither; it returns the empty list and holds
  nothing.
\<close>

theorem simulated_locks_are_not_acquired:
  "fst (acquire_locks_in_order [''message_lock'', ''system_lock''] (init_server 0)) = []
   \<and> clients_lock (snd (acquire_locks_in_order [''message_lock'', ''system_lock'']
        (init_server 0))) = 0
   \<and> lock_trace (snd (acquire_locks_in_order [''message_lock'', ''system_lock'']
        (init_server 0))) = []
   \<and> active_locks (snd (acquire_locks_in_order [''message_lock'', ''system_lock'']
        (init_server 0))) = {}
   \<and> lock_visits (snd (acquire_locks_in_order [''message_lock'', ''system_lock'']
        (init_server 0))) = [AcquireVisit ''system_lock'', AcquireVisit ''message_lock'']"
  by (simp add: acquire_locks_in_order_closed init_server_def order_key_def resource_order_def)

text \<open>One call of \<^verbatim>\<open>trigger_synchronization\<close> that runs from its test to its end without
  another call in between: it changes nothing while a synchronization is in progress, and
  from the idle state it stamps \<^verbatim>\<open>last_sync\<close>, counts one sync operation, calls send once for
  every entry of \<^verbatim>\<open>client_sockets\<close>, and starts one timer whose firing clears the flag.\<close>

lemma trigger_synchronization_sequential:
  "(sync_in_progress (system_state st) \<longrightarrow> trigger_synchronization now st = st)
   \<and> (\<not> sync_in_progress (system_state st) \<and> distinct (map fst (client_sockets st)) \<longrightarrow>
        last_sync (system_state (trigger_synchronization now st)) = now
        \<and> sync_in_progress (system_state (trigger_synchronization now st))
        \<and> sync_operations (stats (trigger_synchronization now st)) =
            Suc (sync_operations (stats st))
        \<and> send_calls (trigger_synchronization now st) =
            send_calls st @
            map (\<lambda>(c, s). (s, sync_request now ''SIGET_CENTRAL'')) (client_sockets st)
        \<and> timers (trigger_synchronization now st) = timers st @ [now + 5]
        \<and> \<not> sync_in_progress
              (system_state (timer_fires (now + 5) (trigger_synchronization now st)))
        \<and> trigger_synchronization later (trigger_synchronization now st) =
            trigger_synchronization now st)"
  by (simp add: trigger_synchronization_closed handles_of_keys timer_fires_def
        complete_synchronization_def split_def comp_def)

text \<open>
  Claim C5, as amended. In a well-formed registry an emergency override sets
  \<^verbatim>\<open>emergency_mode\<close>, counts one override, and calls send with the \<^verbatim>\<open>emergency_override\<close>
  message for exactly the sessions whose intersection equals the target when the target is
  a non-empty string, and for every session when the target is \<^verbatim>\<open>None\<close> or the empty string.
\<close>

theorem emergency_override_recipients:
  "registry_inv st \<longrightarrow>
     emergency_mode (system_state (emergency_override target es now st))
     \<and> emergency_overrides (stats (emergency_override target es now st)) =
         Suc (emergency_overrides (stats st))
     \<and> send_calls (emergency_override target es now st) =
         send_calls st @
         map (\<lambda>(c, info). (ci_socket info, emergency_override_msg es now target))
           (if target = None \<or> target = Some [] then clients st
            else filter (\<lambda>(c, info). ci_intersection info = PStr (the target)) (clients st))"
proof
  assume inv: "registry_inv st"
  have d: "distinct (map fst (client_sockets st))"
    using inv by (simp add: registry_inv_def comp_def split_def)
  have all: "handles_of (client_sockets st) (map fst (client_sockets st)) =
               map (\<lambda>(c, info). ci_socket info) (clients st)"
    using handles_of_keys [OF d] inv by (simp add: registry_inv_def comp_def split_def)
  have sub: "handles_of (client_sockets st) (map fst (filter P (clients st))) =
               map (\<lambda>(c, info). ci_socket info) (filter P (clients st))" for P
  proof -
    have "\<And>p. p \<in> set (clients st) \<Longrightarrow>
            map_of (client_sockets st) (fst p) = Some (ci_socket (snd p))"
    proof -
      fix p assume "p \<in> set (clients st)"
      then have "(fst p, ci_socket (snd p)) \<in> set (client_sockets st)"
        using inv by (force simp: registry_inv_def)
      then show "map_of (client_sockets st) (fst p) = Some (ci_socket (snd p))"
        using d by simp
    qed
    then have "map (\<lambda>c. case map_of (client_sockets st) c of None \<Rightarrow> [] | Some s \<Rightarrow> [s])
                 (map fst (filter P (clients st))) =
               map (\<lambda>p. [ci_socket (snd p)]) (filter P (clients st))"
      by simp
    then show ?thesis
      by (simp only: handles_of_def concat_map_singleton) (simp add: split_def)
  qed
  show "emergency_mode (system_state (emergency_override target es now st))
     \<and> emergency_overrides (stats (emergency_override target es now st)) =
         Suc (emergency_overrides (stats st))
     \<and> send_calls (emergency_override target es now st) =
         send_calls st @
         map (\<lambda>(c, info). (ci_socket info, emergency_override_msg es now target))
           (if target = None \<or> target = Some [] then clients st
            else filter (\<lambda>(c, info). ci_intersection info = PStr (the target)) (clients st))"
    by (simp add: emergency_override_closed all sub split_def comp_def)
qed

lemma remove_client_keeps_closed: "closed (fst (remove_client cid st)) = closed st"
  by (cases "hashable cid") (simp_all add: remove_client_closed remove_client_unhashable)

lemma remove_all_keeps_closed: "closed (fst (remove_all cs st)) = closed st"
proof (induction cs arbitrary: st)
  case Nil
  then show ?case by simp
next
  case (Cons c cs)
  obtain st1 e where r: "remove_client c st = (st1, e)" by (cases "remove_client c st")
  have "closed st1 = closed st" using remove_client_keeps_closed [of c st] r by simp
  then show ?case using Cons.IH [of st1] r by (cases e) simp_all
qed

lemma system_monitor_keeps_closed: "closed (system_monitor now st) = closed st"
proof -
  let ?cs = "map fst (filter (\<lambda>(client_id, info). now - ci_last_heartbeat info > 60) (clients st))"
  let ?st1 = "with_clients_lock (\<lambda>s. s) st"
  obtain st2 e where r: "remove_all ?cs ?st1 = (st2, e)" by (cases "remove_all ?cs ?st1")
  have c1: "closed ?st1 = closed st"
    by (simp add: with_clients_lock_def rlock_release_def rlock_acquire_def)
  have "closed st2 = closed st" using remove_all_keeps_closed [of ?cs ?st1] r c1 by simp
  then show ?thesis using r
    by (cases e) (simp_all add: system_monitor_def Let_def log_system_stats_def
         with_clients_lock_def rlock_release_def rlock_acquire_def)
qed

lemma handle_client_closes:
  "snd (handle_client sock addr ps st) = None \<Longrightarrow> sock \<in> closed (fst (handle_client sock addr ps st))"
  by (auto simp: handle_client_def sock_close_def Let_def split: prod.splits option.splits if_splits)

text \<open>
  Claim C1. \<^verbatim>\<open>remove_client\<close> and the liveness sweep never close a handle. For a coordinator
  with one session \<^verbatim>\<open>A1\<close> registered at time 0 on handle 1, the sweep at time 61 removes the
  session and handle 1 is not closed.
\<close>

theorem monitor_eviction_leaves_handle_open:
  "closed (fst (remove_client cid st)) = closed st
   \<and> closed (system_monitor now st) = closed st
   \<and> map_of (client_sockets (run 0 [Start, Dispatch 0 (PStr ''A1'')
          [(''type'', PStr ''register''), (''light_id'', PStr ''A1'')] 1 ''a1''])) (PStr ''A1'') = Some 1
   \<and> clients (system_monitor 61 (run 0 [Start, Dispatch 0 (PStr ''A1'')
          [(''type'', PStr ''register''), (''light_id'', PStr ''A1'')] 1 ''a1''])) = []
   \<and> 1 \<notin> closed (system_monitor 61 (run 0 [Start, Dispatch 0 (PStr ''A1'')
          [(''type'', PStr ''register''), (''light_id'', PStr ''A1'')] 1 ''a1'']))"
proof -
  let ?st = "run 0 [Start, Dispatch 0 (PStr ''A1'')
          [(''type'', PStr ''register''), (''light_id'', PStr ''A1'')] 1 ''a1'']"
  have a: "map_of (client_sockets ?st) (PStr ''A1'') = Some 1"
    by (simp add: eval_defs)
  have b: "clients (system_monitor 61 ?st) = []"
    by (simp add: eval_defs)
  have c: "closed ?st = {}"
    by (simp add: eval_defs)
  show ?thesis
    using a b c by (simp add: remove_client_keeps_closed system_monitor_keeps_closed)
qed

lemma update_client_state_absent:
  "map_of (clients st) cid = None \<Longrightarrow> fst (update_client_state now cid m st) = st"
  by (simp add: update_client_state_def)

lemma update_client_state_present:
  "hashable cid \<Longrightarrow> map_of (clients st) cid = Some info \<Longrightarrow>
   update_client_state now cid m st =
     (let st1 = st\<lparr> clients := AList.update cid
                  (info\<lparr> ci_state := (case map_of m ''state'' of None \<Rightarrow> ci_state info | Some v \<Rightarrow> v),
                         ci_last_heartbeat := now,
                         ci_state_changes := Suc (ci_state_changes info) \<rparr>) (clients st) \<rparr>
      in if \<not> sync_in_progress (system_state st) \<and> now - last_sync (system_state st) > 30
         then trigger_synchronization now st1 else st1, None)"
  by (simp add: update_client_state_def should_sync_clients_def dict_get_def Let_def)

lemma pcm_state_update_fields:
  assumes "map_of m ''type'' = Some (PStr ''state_update'')"
  shows "clients (fst (process_client_message now cid m sock addr st)) =
           clients (fst (update_client_state now cid m st))"
    and "client_sockets (fst (process_client_message now cid m sock addr st)) =
           client_sockets (fst (update_client_state now cid m st))"
    and "client_locks (fst (process_client_message now cid m sock addr st)) =
           client_locks (fst (update_client_state now cid m st))"
    and "system_state (fst (process_client_message now cid m sock addr st)) =
           system_state (fst (update_client_state now cid m st))"
    and "send_calls (fst (process_client_message now cid m sock addr st)) =
           send_calls (fst (update_client_state now cid m st))"
    and "timers (fst (process_client_message now cid m sock addr st)) =
           timers (fst (update_client_state now cid m st))"
    and "sync_operations (stats (fst (process_client_message now cid m sock addr st))) =
           sync_operations (stats (fst (update_client_state now cid m st)))"
  using assms
  by (simp_all add: process_client_message_unfold handler_def Let_def update_client_state_def
        should_sync_clients_def trigger_synchronization_closed split: option.splits)

text \<open>
  Claim C6. A \<^verbatim>\<open>state_update\<close> for an id without a session leaves the whole state as it was
  in \<^verbatim>\<open>update_client_state\<close>, and the dispatcher around it leaves the three registry
  dictionaries, the system state, the send calls and the timers as they were. For an id
  with a session, the session gets the state of the message (its own when the message has
  none), the current time as last heartbeat and one more state change, and
  \<^verbatim>\<open>trigger_synchronization\<close> runs exactly when no synchronization is in progress and more
  than 30 seconds have passed since \<^verbatim>\<open>last_sync\<close>.
\<close>

theorem state_update_effect:
  "(map_of (clients st) cid = None \<longrightarrow>
      fst (update_client_state now cid m st) = st
      \<and> (map_of m ''type'' = Some (PStr ''state_update'') \<longrightarrow>
           clients (fst (process_client_message now cid m sock addr st)) = clients st
           \<and> client_sockets (fst (process_client_message now cid m sock addr st)) = client_sockets st
           \<and> client_locks (fst (process_client_message now cid m sock addr st)) = client_locks st
           \<and> system_state (fst (process_client_message now cid m sock addr st)) = system_state st
           \<and> send_calls (fst (process_client_message now cid m sock addr st)) = send_calls st
           \<and> timers (fst (process_client_message now cid m sock addr st)) = timers st))
   \<and> (hashable cid \<and> map_of (clients st) cid = Some info \<longrightarrow>
        map_of (clients (fst (update_client_state now cid m st))) cid =
          Some (info\<lparr> ci_state := (case map_of m ''state'' of None \<Rightarrow> ci_state info | Some v \<Rightarrow> v),
                      ci_last_heartbeat := now,
                      ci_state_changes := Suc (ci_state_changes info) \<rparr>)
        \<and> fst (update_client_state now cid m st) =
            (if \<not> sync_in_progress (system_state st) \<and> now - last_sync (system_state st) > 30
             then trigger_synchronization now
                    (st\<lparr> clients := AList.update cid
                       (info\<lparr> ci_state := (case map_of m ''state'' of None \<Rightarrow> ci_state info | Some v \<Rightarrow> v),
                              ci_last_heartbeat := now,
                              ci_state_changes := Suc (ci_state_changes info) \<rparr>) (clients st) \<rparr>)
             else st\<lparr> clients := AList.update cid
                       (info\<lparr> ci_state := (case map_of m ''state'' of None \<Rightarrow> ci_state info | Some v \<Rightarrow> v),
                              ci_last_heartbeat := now,
                              ci_state_changes := Suc (ci_state_changes info) \<rparr>) (clients st) \<rparr>)
        \<and> sync_operations (stats (fst (update_client_state now cid m st))) =
            sync_operations (stats st) +
            (if \<not> sync_in_progress (system_state st) \<and> now - last_sync (system_state st) > 30
             then 1 else 0)
        \<and> (map_of m ''type'' = Some (PStr ''state_update'') \<longrightarrow>
             map_of (clients (fst (process_client_message now cid m sock addr st))) cid =
               Some (info\<lparr> ci_state := (case map_of m ''state'' of None \<Rightarrow> ci_state info | Some v \<Rightarrow> v),
                           ci_last_heartbeat := now,
                           ci_state_changes := Suc (ci_state_changes info) \<rparr>)
             \<and> sync_operations (stats (fst (process_client_message now cid m sock addr st))) =
                 sync_operations (stats st) +
                 (if \<not> sync_in_progress (system_state st) \<and> now - last_sync (system_state st) > 30
                  then 1 else 0)))"
proof -
  have absent: "map_of (clients st) cid = None \<longrightarrow>
      fst (update_client_state now cid m st) = st
      \<and> (map_of m ''type'' = Some (PStr ''state_update'') \<longrightarrow>
           clients (fst (process_client_message now cid m sock addr st)) = clients st
           \<and> client_sockets (fst (process_client_message now cid m sock addr st)) = client_sockets st
           \<and> client_locks (fst (process_client_message now cid m sock addr st)) = client_locks st
           \<and> system_state (fst (process_client_message now cid m sock addr st)) = system_state st
           \<and> send_calls (fst (process_client_message now cid m sock addr st)) = send_calls st
           \<and> timers (fst (process_client_message now cid m sock addr st)) = timers st)"
    by (simp add: pcm_state_update_fields update_client_state_absent)
  have present: "hashable cid \<and> map_of (clients st) cid = Some info \<longrightarrow>
        map_of (clients (fst (update_client_state now cid m st))) cid =
          Some (info\<lparr> ci_state := (case map_of m ''state'' of None \<Rightarrow> ci_state info | Some v \<Rightarrow> v),
                      ci_last_heartbeat := now,
                      ci_state_changes := Suc (ci_state_changes info) \<rparr>)
        \<and> sync_operations (stats (fst (update_client_state now cid m st))) =
            sync_operations (stats st) +
            (if \<not> sync_in_progress (system_state st) \<and> now - last_sync (system_state st) > 30
             then 1 else 0)"
    by (simp add: update_client_state_present Let_def trigger_synchronization_closed update_conv')
  show ?thesis
    using absent present
    by (simp add: pcm_state_update_fields update_client_state_present Let_def)
qed

lemma run_snoc: "run t0 (evs @ [e]) = step (run t0 evs) e"
  by (simp add: run_def)

text \<open>
  Claim C8. In every state the coordinator reaches from its construction by any sequence
  of its operations, \<^verbatim>\<open>total_clients\<close> is the number of sessions in the registry; hence an
  operation that leaves the ids of the registry as they are leaves \<^verbatim>\<open>total_clients\<close> as it
  is. In any state, registering a hashable id puts it in the registry and sets
  \<^verbatim>\<open>total_clients\<close> to the new size, and removing a registered id takes it out and sets
  \<^verbatim>\<open>total_clients\<close> to the new size.
\<close>

theorem total_clients_is_registry_size:
  "total_clients (system_state (run t0 evs)) = length (clients (run t0 evs))
   \<and> (map fst (clients (step (run t0 evs) e)) = map fst (clients (run t0 evs)) \<longrightarrow>
        total_clients (system_state (step (run t0 evs) e)) =
        total_clients (system_state (run t0 evs)))
   \<and> (hashable cid \<longrightarrow>
        map_of (clients (fst (register_client now cid m sock addr st))) cid \<noteq> None
        \<and> total_clients (system_state (fst (register_client now cid m sock addr st))) =
            length (clients (fst (register_client now cid m sock addr st))))
   \<and> (hashable cid \<and> map_of (clients st) cid \<noteq> None \<longrightarrow>
        map_of (clients (fst (remove_client cid st))) cid = None
        \<and> total_clients (system_state (fst (remove_client cid st))) =
            length (clients (fst (remove_client cid st))))"
proof -
  have inv: "total_clients (system_state (run t0 es)) = length (clients (run t0 es))" for es
    using run_inv [of t0 es] by (simp add: registry_inv_def)
  have a: "map fst (clients (step (run t0 evs) e)) = map fst (clients (run t0 evs)) \<longrightarrow>
        total_clients (system_state (step (run t0 evs) e)) =
        total_clients (system_state (run t0 evs))"
  proof
    assume k: "map fst (clients (step (run t0 evs) e)) = map fst (clients (run t0 evs))"
    have "length (clients (step (run t0 evs) e)) = length (clients (run t0 evs))"
      using arg_cong [OF k, of length] by simp
    then show "total_clients (system_state (step (run t0 evs) e)) =
        total_clients (system_state (run t0 evs))"
      using inv [of "evs @ [e]"] inv [of evs] by (simp add: run_snoc)
  qed
  have b: "hashable cid \<longrightarrow>
        map_of (clients (fst (register_client now cid m sock addr st))) cid \<noteq> None
        \<and> total_clients (system_state (fst (register_client now cid m sock addr st))) =
            length (clients (fst (register_client now cid m sock addr st)))"
    by (simp add: register_client_closed update_conv')
  have c: "hashable cid \<and> map_of (clients st) cid \<noteq> None \<longrightarrow>
        map_of (clients (fst (remove_client cid st))) cid = None
        \<and> total_clients (system_state (fst (remove_client cid st))) =
            length (clients (fst (remove_client cid st)))"
    by (simp add: remove_client_closed delete_conv' del: map_of_eq_None_iff)
  show ?thesis using inv [of evs] a b c by blast
qed

lemma pcm_register_clients:
  "map_of m ''type'' = Some (PStr ''register'') \<Longrightarrow>
   clients (fst (process_client_message now cid m sock addr st)) =
   clients (fst (register_client now cid m sock addr st))"
  by (simp add: process_client_message_unfold handler_def Let_def register_client_def
        send_to_client_def split: option.splits)

text \<open>
  Claim C10. The dispatcher rejects a \<^verbatim>\<open>register\<close>, \<^verbatim>\<open>state_update\<close> or \<^verbatim>\<open>heartbeat\<close> message
  exactly when its id cannot be a dictionary key, never for a missing field (a missing
  \<^verbatim>\<open>light_id\<close> is the id \<^verbatim>\<open>None\<close>, which can). A \<^verbatim>\<open>register\<close> message creates the session with
  intersection \<^verbatim>\<open>Unknown\<close>, position \<^verbatim>\<open>(0, 0)\<close> and state \<^verbatim>\<open>RED\<close> for the fields it lacks. A
  \<^verbatim>\<open>state_update\<close> message without a state leaves the state of the session as it is, sets
  its last heartbeat to the current time and counts one more state change.
\<close>

theorem missing_fields_defaulted:
  "(classified m \<longrightarrow>
      (snd (process_client_message now cid m sock addr st) = None) = hashable cid)
   \<and> (map_of m ''light_id'' = None \<longrightarrow> hashable (dict_get m ''light_id'' PNone))
   \<and> (map_of m ''type'' = Some (PStr ''register'') \<and> hashable cid \<longrightarrow>
        (\<exists>info. map_of (clients (fst (process_client_message now cid m sock addr st))) cid =
                  Some info
           \<and> ci_last_heartbeat info = now \<and> ci_state_changes info = 0
           \<and> (map_of m ''intersection'' = None \<longrightarrow> ci_intersection info = PStr ''Unknown'')
           \<and> (map_of m ''position'' = None \<longrightarrow> ci_position info = PTuple [PInt 0, PInt 0])
           \<and> (map_of m ''state'' = None \<longrightarrow> ci_state info = PStr ''RED'')))
   \<and> (map_of m ''type'' = Some (PStr ''state_update'') \<and> hashable cid
        \<and> map_of (clients st) cid = Some old \<and> map_of m ''state'' = None \<longrightarrow>
        map_of (clients (fst (process_client_message now cid m sock addr st))) cid =
          Some (old\<lparr> ci_last_heartbeat := now,
                     ci_state_changes := Suc (ci_state_changes old) \<rparr>))"
proof -
  have a: "classified m \<longrightarrow>
      (snd (process_client_message now cid m sock addr st) = None) = hashable cid"
    by (simp add: process_client_message_error handler_raises_def)
  have b: "map_of m ''light_id'' = None \<longrightarrow> hashable (dict_get m ''light_id'' PNone)"
    by (simp add: dict_get_def)
  have c: "map_of m ''type'' = Some (PStr ''register'') \<and> hashable cid \<longrightarrow>
        (\<exists>info. map_of (clients (fst (process_client_message now cid m sock addr st))) cid =
                  Some info
           \<and> ci_last_heartbeat info = now \<and> ci_state_changes info = 0
           \<and> (map_of m ''intersection'' = None \<longrightarrow> ci_intersection info = PStr ''Unknown'')
           \<and> (map_of m ''position'' = None \<longrightarrow> ci_position info = PTuple [PInt 0, PInt 0])
           \<and> (map_of m ''state'' = None \<longrightarrow> ci_state info = PStr ''RED''))"
    by (simp add: pcm_register_clients register_client_closed update_conv' dict_get_def)
  have d: "map_of m ''type'' = Some (PStr ''state_update'') \<and> hashable cid
        \<and> map_of (clients st) cid = Some old \<and> map_of m ''state'' = None \<longrightarrow>
        map_of (clients (fst (process_client_message now cid m sock addr st))) cid =
          Some (old\<lparr> ci_last_heartbeat := now,
                     ci_state_changes := Suc (ci_state_changes old) \<rparr>)"
    by (simp add: pcm_state_update_fields update_client_state_present Let_def
          trigger_synchronization_closed update_conv')
  show ?thesis using a b c d by blast
qed

section \<open>The scenario of two agents\<close>

lemma two_agents_value:
  "two_agents =
   \<lparr> running = True,
     clients =
       [(PStr ''A1'', \<lparr> ci_id = PStr ''A1'', ci_intersection = PStr ''Centro'',
                        ci_position = PTuple [PInt 0, PInt 0], ci_state = PStr ''RED'',
                        ci_last_heartbeat = 0, ci_socket = 1, ci_address = ''a1'',
                        ci_state_changes = 0 \<rparr>),
        (PStr ''A2'', \<lparr> ci_id = PStr ''A2'', ci_intersection = PStr ''Sur'',
                        ci_position = PTuple [PInt 0, PInt 0], ci_state = PStr ''RED'',
                        ci_last_heartbeat = 0, ci_socket = 2, ci_address = ''a2'',
                        ci_state_changes = 0 \<rparr>)],
     client_sockets = [(PStr ''A1'', 1), (PStr ''A2'', 2)],
     client_locks = [(PStr ''A1'', ()), (PStr ''A2'', ())],
     system_state = \<lparr> emergency_mode = False, sync_in_progress = False, last_sync = 0,
                      total_clients = 2 \<rparr>,
     stats = \<lparr> messages_processed = 2, sync_operations = 0, emergency_overrides = 0,
               deadlock_preventions = 2 \<rparr>,
     active_locks = {}, clients_lock = 0,
     lock_trace = [Acquired ''clients_lock'', Released ''clients_lock'',
                   Acquired ''clients_lock'', Released ''clients_lock''],
     lock_visits = [AcquireVisit ''clients_lock'', ReleaseVisit ''clients_lock'',
                    AcquireVisit ''clients_lock'', ReleaseVisit ''clients_lock''],
     send_calls = [(1, registration_confirmed 0 (PStr ''A1'')),
                   (2, registration_confirmed 0 (PStr ''A2''))],
     closed = {}, timers = [] \<rparr>"
  by (simp add: two_agents_def eval_defs)

lemma two_agents_inv: "registry_inv two_agents"
  unfolding two_agents_def by (rule run_inv)

theorem messages_processed_counts_dispatched_witness:
  "\<not> classified [(''type'', PStr ''ping''), (''light_id'', PStr ''A1'')]
   \<and> messages_processed (stats (dispatch_all (init_server 0)
        [(0, PStr ''A1'', [(''type'', PStr ''register''), (''light_id'', PStr ''A1'')], 1, ''a1''),
         (1, PStr ''A1'', [(''type'', PStr ''ping''), (''light_id'', PStr ''A1'')], 1, ''a1''),
         (2, PList [], [(''type'', PStr ''heartbeat''), (''light_id'', PList [])], 1, ''a1'')])) = 2
   \<and> messages_processed (stats (fst (process_client_message 1 (PStr ''A1'')
        [(''type'', PStr ''ping''), (''light_id'', PStr ''A1'')] 1 ''a1'' (init_server 0)))) = 1"
proof -
  let ?ping = "[(''type'', PStr ''ping''), (''light_id'', PStr ''A1'')]"
  have n: "\<not> classified ?ping" by (simp add: classified_def)
  have z: "messages_processed (stats (init_server 0)) = 0" by (simp add: init_server_def)
  from n z show ?thesis
    using messages_processed_counts_dispatched
      [of "init_server 0"
          "[(0, PStr ''A1'', [(''type'', PStr ''register''), (''light_id'', PStr ''A1'')], 1, ''a1''),
            (1, PStr ''A1'', ?ping, 1, ''a1''),
            (2, PList [], [(''type'', PStr ''heartbeat''), (''light_id'', PList [])], 1, ''a1'')]"
          ?ping 1 "PStr ''A1''" 1 "''a1''"]
    by (simp add: counted_def handler_raises_def classified_def)
qed

theorem lock_visits_ordered_and_released_witness:
  "''audit_lock'' \<notin> set resource_order \<and> order_key ''audit_lock'' = 999
   \<and> lock_visits (snd (acquire_locks_in_order
        [''message_lock'', ''clients_lock'', ''audit_lock'', ''system_lock'', ''clients_lock'']
        (init_server 0))) =
       [AcquireVisit ''system_lock'', AcquireVisit ''clients_lock'', AcquireVisit ''clients_lock'',
        AcquireVisit ''message_lock'', AcquireVisit ''audit_lock'']
   \<and> fst (acquire_locks_in_order
        [''message_lock'', ''clients_lock'', ''audit_lock'', ''system_lock'', ''clients_lock'']
        (init_server 0)) = [''clients_lock'', ''clients_lock'']
   \<and> lock_visits (release_locks [''system_lock'', ''clients_lock'', ''message_lock'']
        (init_server 0)) =
       [ReleaseVisit ''message_lock'', ReleaseVisit ''clients_lock'', ReleaseVisit ''system_lock'']
   \<and> clients_lock (release_locks [''clients_lock'', ''clients_lock'']
        (snd (acquire_locks_in_order
           [''message_lock'', ''clients_lock'', ''audit_lock'', ''system_lock'', ''clients_lock'']
           (init_server 0)))) = 0
   \<and> snd (process_client_message 0 (PList []) [(''type'', PStr ''register''), (''light_id'', PList [])]
            1 ''a1'' (init_server 0)) = Some TypeError
   \<and> clients_lock (fst (process_client_message 0 (PList [])
        [(''type'', PStr ''register''), (''light_id'', PList [])] 1 ''a1'' (init_server 0))) = 0"
proof -
  let ?names = "[''message_lock'', ''clients_lock'', ''audit_lock'', ''system_lock'', ''clients_lock'']"
  let ?ns = "[''system_lock'', ''clients_lock'', ''message_lock'']"
  have s: "sort_key order_key ?names =
             [''system_lock'', ''clients_lock'', ''clients_lock'', ''message_lock'', ''audit_lock'']"
    by (simp add: order_key_def resource_order_def)
  have a: "''audit_lock'' \<notin> set resource_order" by (simp add: resource_order_def)
  have e: "snd (process_client_message 0 (PList []) [(''type'', PStr ''register''), (''light_id'', PList [])]
            1 ''a1'' (init_server 0)) = Some TypeError"
    by (simp add: process_client_message_error handler_raises_def classified_def)
  have z: "clients_lock (init_server 0) = 0" "lock_trace (init_server 0) = []"
    "lock_visits (init_server 0) = []"
    by (simp_all add: init_server_def)
  note T = lock_visits_ordered_and_released
      [of ?names "init_server 0" "''audit_lock''" ?ns 0 "PList []"
          "[(''type'', PStr ''register''), (''light_id'', PList [])]" 1 "''a1''", unfolded s]
  have k: "order_key ''audit_lock'' = 999" using T a by blast
  have f: "fst (acquire_locks_in_order ?names (init_server 0)) = [''clients_lock'', ''clients_lock'']"
    using T by simp
  let ?acq = "snd (acquire_locks_in_order ?names (init_server 0))"
  have c1: "lock_visits ?acq =
       [AcquireVisit ''system_lock'', AcquireVisit ''clients_lock'', AcquireVisit ''clients_lock'',
        AcquireVisit ''message_lock'', AcquireVisit ''audit_lock'']"
    using T by (simp add: z)
  have c2: "lock_visits (release_locks ?ns (init_server 0)) =
       [ReleaseVisit ''message_lock'', ReleaseVisit ''clients_lock'', ReleaseVisit ''system_lock'']"
    using T by (simp add: z)
  have c5: "clients_lock (release_locks [''clients_lock'', ''clients_lock''] ?acq) = 0"
    using T unfolding f by (simp add: z)
  have c7: "clients_lock (fst (process_client_message 0 (PList [])
        [(''type'', PStr ''register''), (''light_id'', PList [])] 1 ''a1'' (init_server 0))) = 0"
    using T by (simp add: z)
  show ?thesis
    using a k c1 f c2 c5 e c7 by blast
qed




theorem emergency_override_recipients_witness:
  "registry_inv two_agents
   \<and> emergency_mode (system_state (emergency_override (Some ''Centro'') ''RED'' 5 two_agents))
   \<and> send_calls (emergency_override (Some ''Centro'') ''RED'' 5 two_agents) =
       send_calls two_agents @ [(1, emergency_override_msg ''RED'' 5 (Some ''Centro''))]
   \<and> send_calls (emergency_override None ''RED'' 5 two_agents) =
       send_calls two_agents @ [(1, emergency_override_msg ''RED'' 5 None),
                                (2, emergency_override_msg ''RED'' 5 None)]"
proof -
  have c: "clients two_agents =
       [(PStr ''A1'', \<lparr> ci_id = PStr ''A1'', ci_intersection = PStr ''Centro'',
                        ci_position = PTuple [PInt 0, PInt 0], ci_state = PStr ''RED'',
                        ci_last_heartbeat = 0, ci_socket = 1, ci_address = ''a1'',
                        ci_state_changes = 0 \<rparr>),
        (PStr ''A2'', \<lparr> ci_id = PStr ''A2'', ci_intersection = PStr ''Sur'',
                        ci_position = PTuple [PInt 0, PInt 0], ci_state = PStr ''RED'',
                        ci_last_heartbeat = 0, ci_socket = 2, ci_address = ''a2'',
                        ci_state_changes = 0 \<rparr>)]"
    by (simp add: two_agents_value)
  show ?thesis
    using emergency_override_recipients [of two_agents "Some ''Centro''" "''RED''" 5]
      emergency_override_recipients [of two_agents None "''RED''" 5] two_agents_inv
    by (simp add: c)
qed

text \<open>
  Claim C5 as stated fails for the empty string as target: with sessions at \<^verbatim>\<open>Centro\<close> and
  \<^verbatim>\<open>Sur\<close>, an override targeted at the intersection named by the empty string is sent to
  both.
\<close>

theorem empty_target_reaches_all:
  "map (ci_intersection \<circ> snd) (clients two_agents) = [PStr ''Centro'', PStr ''Sur'']
   \<and> send_calls (emergency_override (Some []) ''RED'' 5 two_agents) =
       send_calls two_agents @ [(1, emergency_override_msg ''RED'' 5 (Some [])),
                                (2, emergency_override_msg ''RED'' 5 (Some []))]"
  by (simp add: two_agents_value eval_defs)

theorem state_update_effect_witness:
  "map_of (clients two_agents) (PStr ''Z9'') = None
   \<and> fst (update_client_state 31 (PStr ''Z9'')
        [(''type'', PStr ''state_update''), (''light_id'', PStr ''Z9''), (''state'', PStr ''GREEN'')]
        two_agents) = two_agents
   \<and> hashable (PStr ''A1'')
   \<and> map_of (clients two_agents) (PStr ''A1'') =
       Some \<lparr> ci_id = PStr ''A1'', ci_intersection = PStr ''Centro'',
              ci_position = PTuple [PInt 0, PInt 0], ci_state = PStr ''RED'',
              ci_last_heartbeat = 0, ci_socket = 1, ci_address = ''a1'',
              ci_state_changes = 0 \<rparr>
   \<and> map_of (clients (fst (process_client_message 31 (PStr ''A1'')
        [(''type'', PStr ''state_update''), (''light_id'', PStr ''A1''), (''state'', PStr ''GREEN'')]
        1 ''a1'' two_agents))) (PStr ''A1'') =
       Some \<lparr> ci_id = PStr ''A1'', ci_intersection = PStr ''Centro'',
              ci_position = PTuple [PInt 0, PInt 0], ci_state = PStr ''GREEN'',
              ci_last_heartbeat = 31, ci_socket = 1, ci_address = ''a1'',
              ci_state_changes = 1 \<rparr>
   \<and> sync_operations (stats (fst (process_client_message 31 (PStr ''A1'')
        [(''type'', PStr ''state_update''), (''light_id'', PStr ''A1''), (''state'', PStr ''GREEN'')]
        1 ''a1'' two_agents))) = 1"
proof -
  let ?info = "\<lparr> ci_id = PStr ''A1'', ci_intersection = PStr ''Centro'',
              ci_position = PTuple [PInt 0, PInt 0], ci_state = PStr ''RED'',
              ci_last_heartbeat = 0, ci_socket = 1, ci_address = ''a1'',
              ci_state_changes = 0 \<rparr>"
  let ?m = "[(''type'', PStr ''state_update''), (''light_id'', PStr ''A1''), (''state'', PStr ''GREEN'')]"
  let ?z = "[(''type'', PStr ''state_update''), (''light_id'', PStr ''Z9''), (''state'', PStr ''GREEN'')]"
  have absent: "map_of (clients two_agents) (PStr ''Z9'') = None"
    and present: "map_of (clients two_agents) (PStr ''A1'') = Some ?info"
    and idle: "\<not> sync_in_progress (system_state two_agents)"
    and ls: "last_sync (system_state two_agents) = 0"
    and so: "sync_operations (stats two_agents) = 0"
    by (simp_all add: two_agents_value)
  have ty: "map_of ?m ''type'' = Some (PStr ''state_update'')"
    and sv: "map_of ?m ''state'' = Some (PStr ''GREEN'')" by simp_all
  have a: "fst (update_client_state 31 (PStr ''Z9'') ?z two_agents) = two_agents"
    using state_update_effect [of two_agents "PStr ''Z9''" 31 ?z 1 "''a1''" ?info] absent
    by blast
  note T = state_update_effect [of two_agents "PStr ''A1''" 31 ?m 1 "''a1''" ?info]
  have hs: "hashable (PStr ''A1'')" by simp
  have b: "map_of (clients (fst (process_client_message 31 (PStr ''A1'') ?m 1 ''a1'' two_agents)))
             (PStr ''A1'') =
           Some (?info\<lparr> ci_state := (case map_of ?m ''state'' of None \<Rightarrow> ci_state ?info | Some v \<Rightarrow> v),
                        ci_last_heartbeat := 31,
                        ci_state_changes := Suc (ci_state_changes ?info) \<rparr>)"
    using T present ty hs by blast
  have c: "sync_operations (stats (fst (process_client_message 31 (PStr ''A1'') ?m 1 ''a1'' two_agents))) =
           sync_operations (stats two_agents) +
           (if \<not> sync_in_progress (system_state two_agents)
                \<and> 31 - last_sync (system_state two_agents) > 30 then 1 else 0)"
    using T present ty hs by blast
  show ?thesis
    using absent present a b c by (simp add: idle ls so)
qed

theorem total_clients_is_registry_size_witness:
  "total_clients (system_state two_agents) = 2
   \<and> map fst (clients (step two_agents (Dispatch 5 (PStr ''A1'')
        [(''type'', PStr ''heartbeat''), (''light_id'', PStr ''A1'')] 1 ''a1''))) =
       map fst (clients two_agents)
   \<and> total_clients (system_state (step two_agents (Dispatch 5 (PStr ''A1'')
        [(''type'', PStr ''heartbeat''), (''light_id'', PStr ''A1'')] 1 ''a1''))) = 2
   \<and> hashable (PStr ''A1'') \<and> map_of (clients two_agents) (PStr ''A1'') \<noteq> None
   \<and> total_clients (system_state (fst (remove_client (PStr ''A1'') two_agents))) = 1
   \<and> total_clients (system_state (fst (register_client 9 (PStr ''A3'') [] 3 ''a3'' two_agents))) = 3"
proof -
  let ?e = "Dispatch 5 (PStr ''A1'') [(''type'', PStr ''heartbeat''), (''light_id'', PStr ''A1'')] 1 ''a1''"
  note T = total_clients_is_registry_size
     [of 0 "[Start,
      Dispatch 0 (PStr ''A1'') [(''type'', PStr ''register''), (''light_id'', PStr ''A1''),
                                (''intersection'', PStr ''Centro'')] 1 ''a1'',
      Dispatch 0 (PStr ''A2'') [(''type'', PStr ''register''), (''light_id'', PStr ''A2''),
                                (''intersection'', PStr ''Sur'')] 2 ''a2'']" ?e "PStr ''A1''"
      9 "[]" 3 "''a3''" two_agents, folded two_agents_def]
  note U = total_clients_is_registry_size
     [of 0 "[]" ?e "PStr ''A3''" 9 "[]" 3 "''a3''" two_agents]
  have k: "map fst (clients (step two_agents ?e)) = map fst (clients two_agents)"
    by (simp add: two_agents_value eval_defs)
  have l: "length (clients two_agents) = 2"
    and p: "map_of (clients two_agents) (PStr ''A1'') \<noteq> None"
    by (simp_all add: two_agents_value)
  have r: "length (clients (fst (remove_client (PStr ''A1'') two_agents))) = 1"
    by (simp add: remove_client_closed two_agents_value)
  have g: "length (clients (fst (register_client 9 (PStr ''A3'') [] 3 ''a3'' two_agents))) = 3"
    by (simp add: register_client_closed two_agents_value)
  have h1: "hashable (PStr ''A1'')" and h3: "hashable (PStr ''A3'')" by simp_all
  have t1: "total_clients (system_state two_agents) = 2" using T l by simp
  have t2: "total_clients (system_state (step two_agents ?e)) = 2" using T k t1 by simp
  have t3: "total_clients (system_state (fst (remove_client (PStr ''A1'') two_agents))) = 1"
    using T h1 p r by simp
  have t4: "total_clients (system_state (fst (register_client 9 (PStr ''A3'') [] 3 ''a3'' two_agents))) = 3"
    using U h3 g by simp
  show ?thesis
    using t1 k t2 h1 p t3 t4 by blast
qed

theorem missing_fields_defaulted_witness:
  "classified [(''type'', PStr ''register'')]
   \<and> hashable (dict_get [(''type'', PStr ''register'')] ''light_id'' PNone)
   \<and> snd (process_client_message 7 PNone [(''type'', PStr ''register'')] 1 ''a1'' (init_server 0)) = None
   \<and> map_of (clients (fst (process_client_message 7 PNone [(''type'', PStr ''register'')] 1 ''a1''
        (init_server 0)))) PNone =
       Some \<lparr> ci_id = PNone, ci_intersection = PStr ''Unknown'',
              ci_position = PTuple [PInt 0, PInt 0], ci_state = PStr ''RED'',
              ci_last_heartbeat = 7, ci_socket = 1, ci_address = ''a1'',
              ci_state_changes = 0 \<rparr>
   \<and> map_of (clients (fst (process_client_message 8 (PStr ''A1'')
        [(''type'', PStr ''state_update''), (''light_id'', PStr ''A1'')] 1 ''a1'' two_agents)))
        (PStr ''A1'') =
       Some \<lparr> ci_id = PStr ''A1'', ci_intersection = PStr ''Centro'',
              ci_position = PTuple [PInt 0, PInt 0], ci_state = PStr ''RED'',
              ci_last_heartbeat = 8, ci_socket = 1, ci_address = ''a1'',
              ci_state_changes = 1 \<rparr>"
proof -
  let ?r = "[(''type'', PStr ''register'')]"
  let ?u = "[(''type'', PStr ''state_update''), (''light_id'', PStr ''A1'')]"
  let ?old = "\<lparr> ci_id = PStr ''A1'', ci_intersection = PStr ''Centro'',
              ci_position = PTuple [PInt 0, PInt 0], ci_state = PStr ''RED'',
              ci_last_heartbeat = 0, ci_socket = 1, ci_address = ''a1'',
              ci_state_changes = 0 \<rparr>"
  have cl: "classified ?r" by (simp add: classified_def)
  have nl: "map_of ?r ''light_id'' = None" by simp
  note T = missing_fields_defaulted [of ?r 7 PNone 1 "''a1''" "init_server 0" ?old]
  have h: "hashable (dict_get ?r ''light_id'' PNone)" using T nl by blast
  have hn: "hashable PNone" by simp
  have ok: "snd (process_client_message 7 PNone ?r 1 ''a1'' (init_server 0)) = None"
    using T cl hn by blast
  have reg: "map_of (clients (fst (process_client_message 7 PNone ?r 1 ''a1'' (init_server 0)))) PNone =
       Some \<lparr> ci_id = PNone, ci_intersection = PStr ''Unknown'',
              ci_position = PTuple [PInt 0, PInt 0], ci_state = PStr ''RED'',
              ci_last_heartbeat = 7, ci_socket = 1, ci_address = ''a1'',
              ci_state_changes = 0 \<rparr>"
    by (simp add: eval_defs)
  have present: "map_of (clients two_agents) (PStr ''A1'') = Some ?old"
    by (simp add: two_agents_value)
  have ty: "map_of ?u ''type'' = Some (PStr ''state_update'')"
    and ns: "map_of ?u ''state'' = None" by simp_all
  have hs: "hashable (PStr ''A1'')" by simp
  have upd: "map_of (clients (fst (process_client_message 8 (PStr ''A1'') ?u 1 ''a1'' two_agents)))
        (PStr ''A1'') =
       Some (?old\<lparr> ci_last_heartbeat := 8, ci_state_changes := Suc (ci_state_changes ?old) \<rparr>)"
    using missing_fields_defaulted [of ?u 8 "PStr ''A1''" 1 "''a1''" two_agents ?old]
      present ty ns hs by blast
  show ?thesis using cl h ok reg upd by simp
qed

section \<open>The agent: state changes and the cycle\<close>

lemma change_state_current: "current_state (snd (change_state s lt)) = s"
  by (simp add: change_state_def send_state_to_server_def Let_def)

lemma change_state_count:
  "state_changes (snd (change_state s lt)) =
     state_changes lt + (if s \<noteq> current_state lt then 1 else 0)"
  by (simp add: change_state_def send_state_to_server_def Let_def)

lemma change_states_count:
  "state_changes (change_states ss lt) = state_changes lt + transitions (current_state lt) ss"
  unfolding change_states_def
  by (induction ss arbitrary: lt) (simp_all add: change_state_current change_state_count)

text \<open>
  Claim C9. \<^verbatim>\<open>change_state\<close> with the state the agent already shows returns \<^verbatim>\<open>False\<close> and
  leaves the whole agent as it was: current and previous state, the counter
  \<^verbatim>\<open>state_changes\<close> and the list of messages sent. So a second call with the same state
  changes nothing after the first, and after any sequence of calls the counter has grown
  by the number of actual transitions.
\<close>

theorem change_state_same_is_noop:
  "change_state (current_state lt) lt = (False, lt)
   \<and> change_state s (snd (change_state s lt)) = (False, snd (change_state s lt))
   \<and> state_changes (change_states ss lt) = state_changes lt + transitions (current_state lt) ss"
proof -
  have a: "change_state (current_state lt) lt = (False, lt)"
    by (simp add: change_state_def)
  have b: "change_state s (snd (change_state s lt)) = (False, snd (change_state s lt))"
    using change_state_current [of s lt]
    by (simp add: change_state_def [of s "snd (change_state s lt)"])
  show ?thesis using a b change_states_count by blast
qed

theorem change_state_same_is_noop_witness:
  "change_state GREEN (snd (change_state GREEN (new_traffic_light ''L1'' ''Norte'' 0 0 0))) =
     (False, snd (change_state GREEN (new_traffic_light ''L1'' ''Norte'' 0 0 0)))
   \<and> state_changes (change_states [RED, GREEN, GREEN, YELLOW]
        (new_traffic_light ''L1'' ''Norte'' 0 0 0)) = 2"
  using change_state_same_is_noop
    [of "new_traffic_light ''L1'' ''Norte'' 0 0 0" GREEN "[RED, GREEN, GREEN, YELLOW]"]
  by (simp add: new_traffic_light_def)

lemma held_change_state: "held (snd (change_state s lt)) = held lt"
  by (simp add: change_state_def send_state_to_server_def Let_def)

lemma held_cycle_step: "held (cycle_step lt s) = held lt @ [(s, get_state_duration s)]"
  by (simp add: cycle_step_def sleep_def held_change_state change_state_current)

lemma held_normal_pass:
  "held (cycle_step (cycle_step (cycle_step lt RED) GREEN) YELLOW) =
     held lt @ [(RED, 8), (GREEN, 10), (YELLOW, 3)]"
  by (simp add: held_cycle_step)

lemma change_state_connected: "connected (snd (change_state s lt)) = connected lt"
  by (simp add: change_state_def send_state_to_server_def Let_def)

lemma change_state_reported:
  "reported (snd (change_state s lt)) =
     reported lt @ (if connected lt \<and> current_state lt \<noteq> s then [state_name s] else [])"
  by (simp add: change_state_def send_state_to_server_def Let_def reported_def)

lemma cycle_step_facts:
  "connected (cycle_step lt s) = connected lt"
  "current_state (cycle_step lt s) = s"
  "reported (cycle_step lt s) =
     reported lt @ (if connected lt \<and> current_state lt \<noteq> s then [state_name s] else [])"
  by (simp_all add: cycle_step_def sleep_def change_state_connected change_state_current
        change_state_reported [unfolded reported_def] reported_def)

lemma normal_pass_facts:
  "connected (cycle_step (cycle_step (cycle_step lt RED) GREEN) YELLOW) = connected lt"
  "current_state (cycle_step (cycle_step (cycle_step lt RED) GREEN) YELLOW) = YELLOW"
  "reported (cycle_step (cycle_step (cycle_step lt RED) GREEN) YELLOW) =
     reported lt @
     (if connected lt
      then (if current_state lt = RED then [] else [''RED'']) @ [''GREEN'', ''YELLOW'']
      else [])"
  by (simp_all add: cycle_step_facts)

lemma traffic_light_cycle_append:
  "traffic_light_cycle (cs @ ds) lt = traffic_light_cycle ds (traffic_light_cycle cs lt)"
  by (induction cs arbitrary: lt) (auto simp: Let_def split: prod.splits option.splits)

lemma no_command_pass:
  "traffic_light_cycle (None # cs) lt =
     traffic_light_cycle cs (cycle_step (cycle_step (cycle_step lt RED) GREEN) YELLOW)"
  by (simp add: receive_command_from_server_def is_emergency_def)

lemma held_replicate:
  "held (traffic_light_cycle (replicate n None) lt) =
     held lt @ concat (replicate n [(RED, 8), (GREEN, 10), (YELLOW, 3)])"
  by (induction n arbitrary: lt) (simp_all add: no_command_pass held_normal_pass del: traffic_light_cycle.simps(2))

lemma reported_replicate:
  "connected lt \<Longrightarrow>
   reported (traffic_light_cycle (replicate n None) lt) =
     reported lt @
     (if n = 0 then []
      else (if current_state lt = RED then [] else [''RED'']) @ [''GREEN'', ''YELLOW''] @
           concat (replicate (n - 1) [''RED'', ''GREEN'', ''YELLOW'']))"
proof (induction n arbitrary: lt)
  case 0
  then show ?case by simp
next
  case (Suc n)
  let ?lt = "cycle_step (cycle_step (cycle_step lt RED) GREEN) YELLOW"
  have c: "connected ?lt" using Suc.prems by (simp add: normal_pass_facts)
  show ?case
  proof (cases n)
    case 0
    then show ?thesis using Suc.prems
      by (simp add: no_command_pass normal_pass_facts del: traffic_light_cycle.simps(2))
  next
    case (Suc k)
    then show ?thesis
      using Suc.IH [OF c] Suc.prems
      by (simp add: no_command_pass normal_pass_facts del: traffic_light_cycle.simps(2))
  qed
qed

lemma drop_one_cycle:
  "drop (Suc 0) (concat (replicate n [''RED'', ''GREEN'', ''YELLOW''])) =
     (if n = 0 then []
      else [''GREEN'', ''YELLOW''] @ concat (replicate (n - 1) [''RED'', ''GREEN'', ''YELLOW'']))"
  by (cases n) simp_all

text \<open>
  Claim C7, as amended. Passes of the cycle loop compose. A pass that receives no emergency
  command applies RED, GREEN and YELLOW in that order and shows each for its configured
  duration, whatever the state before; a connected agent reports each of them to the
  coordinator except a RED it already shows. So a fresh connected agent, which starts at
  RED, shows RED, GREEN, YELLOW again and again and reports that sequence without its
  first RED. A pass in which a connected agent receives an \<^verbatim>\<open>emergency_override\<close> command
  naming a valid state shows that state for five seconds and nothing else, and reports it
  unless it is already shown; the pass after it is again of the first kind, so cycling
  resumes from RED.
\<close>

theorem cycle_shows_and_reports:
  "traffic_light_cycle (cs @ ds) lt = traffic_light_cycle ds (traffic_light_cycle cs lt)
   \<and> (\<not> is_emergency (receive_command_from_server c lt) \<longrightarrow>
        held (traffic_light_cycle [c] lt) = held lt @ [(RED, 8), (GREEN, 10), (YELLOW, 3)]
        \<and> reported (traffic_light_cycle [c] lt) =
            reported lt @
            (if connected lt
             then (if current_state lt = RED then [] else [''RED'']) @ [''GREEN'', ''YELLOW'']
             else [])
        \<and> current_state (traffic_light_cycle [c] lt) = YELLOW
        \<and> connected (traffic_light_cycle [c] lt) = connected lt)
   \<and> (connected lt \<and> current_state lt = RED \<longrightarrow>
        held (traffic_light_cycle (replicate n None) lt) =
          held lt @ concat (replicate n [(RED, 8), (GREEN, 10), (YELLOW, 3)])
        \<and> reported (traffic_light_cycle (replicate n None) lt) =
            reported lt @ drop 1 (concat (replicate n [''RED'', ''GREEN'', ''YELLOW''])))
   \<and> (connected lt \<and> is_emergency (Some cmd)
        \<and> dict_get cmd ''state'' (PStr ''RED'') = PStr name
        \<and> state_of_name (upper name) = Some s \<longrightarrow>
        held (traffic_light_cycle [Some cmd] lt) = held lt @ [(s, 5)]
        \<and> reported (traffic_light_cycle [Some cmd] lt) =
            reported lt @ (if current_state lt = s then [] else [state_name s])
        \<and> current_state (traffic_light_cycle [Some cmd] lt) = s
        \<and> connected (traffic_light_cycle [Some cmd] lt))"
proof -
  have a: "\<not> is_emergency (receive_command_from_server c lt) \<longrightarrow>
        held (traffic_light_cycle [c] lt) = held lt @ [(RED, 8), (GREEN, 10), (YELLOW, 3)]
        \<and> reported (traffic_light_cycle [c] lt) =
            reported lt @
            (if connected lt
             then (if current_state lt = RED then [] else [''RED'']) @ [''GREEN'', ''YELLOW'']
             else [])
        \<and> current_state (traffic_light_cycle [c] lt) = YELLOW
        \<and> connected (traffic_light_cycle [c] lt) = connected lt"
    by (simp add: Let_def held_normal_pass normal_pass_facts)
  have b: "connected lt \<and> current_state lt = RED \<longrightarrow>
        held (traffic_light_cycle (replicate n None) lt) =
          held lt @ concat (replicate n [(RED, 8), (GREEN, 10), (YELLOW, 3)])
        \<and> reported (traffic_light_cycle (replicate n None) lt) =
            reported lt @ drop 1 (concat (replicate n [''RED'', ''GREEN'', ''YELLOW'']))"
    by (simp add: held_replicate reported_replicate drop_one_cycle)
  have c: "connected lt \<and> is_emergency (Some cmd)
        \<and> dict_get cmd ''state'' (PStr ''RED'') = PStr name
        \<and> state_of_name (upper name) = Some s \<longrightarrow>
        held (traffic_light_cycle [Some cmd] lt) = held lt @ [(s, 5)]
        \<and> reported (traffic_light_cycle [Some cmd] lt) =
            reported lt @ (if current_state lt = s then [] else [state_name s])
        \<and> current_state (traffic_light_cycle [Some cmd] lt) = s
        \<and> connected (traffic_light_cycle [Some cmd] lt)"
    by (auto simp: Let_def receive_command_from_server_def handle_emergency_override_def
          sleep_def held_change_state change_state_current change_state_connected
          change_state_reported [unfolded reported_def] reported_def)
  show ?thesis using traffic_light_cycle_append a b c by blast
qed

lemma upper_yellow: "upper ''yellow'' = ''YELLOW''"
  by code_simp

text \<open>
  Claim C7 as stated fails for the reported sequence: a fresh connected agent starts at
  RED, and after two passes of the cycle loop it has reported GREEN, YELLOW, RED, GREEN,
  YELLOW; the sequence does not begin with RED.
\<close>

theorem fresh_agent_reports_green_first:
  "current_state (connect_to_server (new_traffic_light ''L1'' ''Norte'' 0 0 0)) = RED
   \<and> reported (traffic_light_cycle [None, None]
        (connect_to_server (new_traffic_light ''L1'' ''Norte'' 0 0 0))) =
       [''GREEN'', ''YELLOW'', ''RED'', ''GREEN'', ''YELLOW'']"
proof -
  let ?lt = "connect_to_server (new_traffic_light ''L1'' ''Norte'' 0 0 0)"
  have con: "connected ?lt" and cur: "current_state ?lt = RED" and r0: "reported ?lt = []"
    by (simp_all add: connect_to_server_def new_traffic_light_def reported_def)
  have "reported (traffic_light_cycle [None, None] ?lt) =
          [''GREEN'', ''YELLOW'', ''RED'', ''GREEN'', ''YELLOW'']"
    using con cur r0
    by (simp add: no_command_pass normal_pass_facts del: traffic_light_cycle.simps(2))
  then show ?thesis using cur by blast
qed

theorem cycle_shows_and_reports_witness:
  "connected (connect_to_server (new_traffic_light ''L1'' ''Norte'' 0 0 0))
   \<and> current_state (connect_to_server (new_traffic_light ''L1'' ''Norte'' 0 0 0)) = RED
   \<and> \<not> is_emergency (receive_command_from_server None
          (connect_to_server (new_traffic_light ''L1'' ''Norte'' 0 0 0)))
   \<and> is_emergency (Some [(''type'', PStr ''emergency_override''), (''state'', PStr ''yellow'')])
   \<and> reported (traffic_light_cycle [None, None, None]
        (connect_to_server (new_traffic_light ''L1'' ''Norte'' 0 0 0))) =
       [''GREEN'', ''YELLOW'', ''RED'', ''GREEN'', ''YELLOW'', ''RED'', ''GREEN'', ''YELLOW'']
   \<and> held (traffic_light_cycle
        [None, Some [(''type'', PStr ''emergency_override''), (''state'', PStr ''yellow'')], None]
        (connect_to_server (new_traffic_light ''L1'' ''Norte'' 0 0 0))) =
      [(RED, 8), (GREEN, 10), (YELLOW, 3), (YELLOW, 5), (RED, 8), (GREEN, 10), (YELLOW, 3)]
   \<and> reported (traffic_light_cycle
        [None, Some [(''type'', PStr ''emergency_override''), (''state'', PStr ''yellow'')], None]
        (connect_to_server (new_traffic_light ''L1'' ''Norte'' 0 0 0))) =
      [''GREEN'', ''YELLOW'', ''RED'', ''GREEN'', ''YELLOW'']"
proof -
  let ?e = "[(''type'', PStr ''emergency_override''), (''state'', PStr ''yellow'')]"
  let ?lt = "connect_to_server (new_traffic_light ''L1'' ''Norte'' 0 0 0)"
  have con: "connected ?lt" and cur: "current_state ?lt = RED"
    and h0: "held ?lt = []" and r0: "reported ?lt = []"
    by (simp_all add: connect_to_server_def new_traffic_light_def reported_def)
  have n: "\<not> is_emergency (receive_command_from_server None lt)" for lt
    by (simp add: receive_command_from_server_def is_emergency_def)
  have e: "is_emergency (Some ?e)" by (simp add: is_emergency_def)
  have g: "dict_get ?e ''state'' (PStr ''RED'') = PStr ''yellow''"
    by (simp add: dict_get_def)
  have u: "state_of_name (upper ''yellow'') = Some YELLOW"
    by (simp add: upper_yellow state_of_name_def)
  note T = cycle_shows_and_reports
  have three: "reported (traffic_light_cycle (replicate 3 None) ?lt) =
       reported ?lt @ drop 1 (concat (replicate 3 [''RED'', ''GREEN'', ''YELLOW'']))"
    using T [of "[]" "[]" ?lt None 3 ?e "''yellow''" YELLOW] con cur by blast
  have r3: "reported (traffic_light_cycle [None, None, None] ?lt) =
       [''GREEN'', ''YELLOW'', ''RED'', ''GREEN'', ''YELLOW'', ''RED'', ''GREEN'', ''YELLOW'']"
    using three r0 by (simp add: numeral_3_eq_3 del: traffic_light_cycle.simps(2))
  let ?l1 = "traffic_light_cycle [None] ?lt"
  have p1: "held ?l1 = [(RED, 8), (GREEN, 10), (YELLOW, 3)]"
    "reported ?l1 = [''GREEN'', ''YELLOW'']" "current_state ?l1 = YELLOW" "connected ?l1"
    using T [of "[]" "[]" ?lt None 0 ?e "''yellow''" YELLOW] n [of ?lt] con cur h0 r0
    by simp_all
  let ?l2 = "traffic_light_cycle [Some ?e] ?l1"
  have p2: "held ?l2 = [(RED, 8), (GREEN, 10), (YELLOW, 3), (YELLOW, 5)]"
    "reported ?l2 = [''GREEN'', ''YELLOW'']" "current_state ?l2 = YELLOW" "connected ?l2"
    using T [of "[]" "[]" ?l1 None 0 ?e "''yellow''" YELLOW] e g u p1
    by simp_all
  let ?l3 = "traffic_light_cycle [None] ?l2"
  have p3: "held ?l3 = [(RED, 8), (GREEN, 10), (YELLOW, 3), (YELLOW, 5), (RED, 8), (GREEN, 10), (YELLOW, 3)]"
    "reported ?l3 = [''GREEN'', ''YELLOW'', ''RED'', ''GREEN'', ''YELLOW'']"
    using T [of "[]" "[]" ?l2 None 0 ?e "''yellow''" YELLOW] n [of ?l2] p2
    by simp_all
  have comp: "traffic_light_cycle [None, Some ?e, None] ?lt = ?l3"
    using T [of "[None]" "[Some ?e, None]" ?lt None 0 ?e "''yellow''" YELLOW]
      T [of "[Some ?e]" "[None]" ?l1 None 0 ?e "''yellow''" YELLOW]
    by (simp del: traffic_light_cycle.simps(2))
  show ?thesis
    using con cur n [of ?lt] e r3 p3 unfolding comp by blast
qed

end
